theory Spec2Isabelle
  imports Complex_Main "HOL-Library.Sublist"
begin

section \<open>Python values, errors and the HTTP exchange\<close>

text \<open>
  An exception that leaves a function is a value on the left of a sum. The constructors
  are the exception classes the modelled lines can raise; the string is the message or
  the name the exception carries.
\<close>

datatype pyerr =
    AttributeError string
  | ValueError string
  | KeyError string
  | UnboundLocalError string
  | JSONDecodeError

text \<open>
  One bar of the vendor's JSON, with the keys the cleaning step reads. Field \<open>bar_t\<close> is
  the instant that \<^verbatim>\<open>pd.to_datetime(..., utc=True)\<close> reads from the bar's \<^verbatim>\<open>'t'\<close> text, as an
  integer count of clock ticks since the epoch; the other fields are the numbers under
  \<^verbatim>\<open>'o'\<close>, \<^verbatim>\<open>'h'\<close>, \<^verbatim>\<open>'l'\<close>, \<^verbatim>\<open>'c'\<close>, \<^verbatim>\<open>'v'\<close>, \<^verbatim>\<open>'n'\<close> and \<^verbatim>\<open>'vw'\<close>. No arithmetic is done on them.
\<close>

record bar =
  bar_t :: int
  bar_o :: real
  bar_h :: real
  bar_l :: real
  bar_c :: real
  bar_v :: int
  bar_n :: int
  bar_vw :: real

text \<open>
  A Python dict keeps its keys in insertion order, and the order of \<^verbatim>\<open>symbol_bars\<close> decides
  the order of every later loop, so a dict is an association list.
\<close>

type_synonym symbol_bars = "(string \<times> bar list) list"

datatype param = PStr string | PInt int

record request =
  url :: string
  req_headers :: "(string \<times> string) list"
  params :: "(string \<times> param) list"

text \<open>
  The parsed payload, with the two keys the fetcher reads: \<open>bars\<close> is \<open>None\<close> when the key
  is absent (\<^verbatim>\<open>data.get("bars", {})\<close> then yields the empty dict), \<open>next_page_token\<close> is
  \<open>None\<close> when the key is absent or null. Field \<open>json\<close> of a response is \<open>None\<close> when the
  body is not JSON, where \<^verbatim>\<open>response.json()\<close> raises.
\<close>

record payload =
  bars :: "symbol_bars option"
  next_page_token :: "string option"

record response =
  status_code :: int
  resp_headers :: "(string \<times> string) list"
  json :: "payload option"

text \<open>
  The network is a deterministic server: from its state and a request it gives a response
  and its next state. The transport always delivers a response. The world also records
  every request issued, oldest first.
\<close>

type_synonym 's net = "'s \<Rightarrow> request \<Rightarrow> response \<times> 's"

record 's world =
  server :: 's
  sent :: "request list"

definition requests_get :: "'s net \<Rightarrow> request \<Rightarrow> 's world \<Rightarrow> response \<times> 's world" where
  "requests_get net req w =
     (case net (server w) req of
        (response, s') \<Rightarrow> (response, \<lparr>server = s', sent = sent w @ [req]\<rparr>))"

section \<open>The fetcher\<close>

subsection \<open>\<^verbatim>\<open>safe_get\<close>\<close>

text \<open>
  Line 5 of \<^verbatim>\<open>alpaca_requests.py\<close>, \<^verbatim>\<open>from datetime import time\<close>, binds the module's name
  \<^verbatim>\<open>time\<close> to the class \<^verbatim>\<open>datetime.time\<close> (line 138 constructs its instances as
  \<^verbatim>\<open>time(9, 30)\<close>); the module \<^verbatim>\<open>time\<close> is never imported. \<open>datetime_time_attrs\<close> lists the
  public attributes of that class, and \<open>time_getattr\<close> is the lookup \<^verbatim>\<open>time.<name>\<close>.
\<close>

definition datetime_time_attrs :: "string list" where
  "datetime_time_attrs =
     [''hour'', ''minute'', ''second'', ''microsecond'', ''tzinfo'', ''fold'',
      ''min'', ''max'', ''resolution'', ''replace'', ''isoformat'', ''fromisoformat'',
      ''strftime'', ''utcoffset'', ''dst'', ''tzname'']"

definition time_getattr :: "string \<Rightarrow> pyerr + string" where
  "time_getattr name =
     (if name \<in> set datetime_time_attrs then Inr name else Inl (AttributeError name))"

text \<open>
  The loop of \<^verbatim>\<open>safe_get\<close>. On status 429, line 27 first evaluates the default argument
  \<^verbatim>\<open>time.time() + 60\<close>, whether or not the header is present; the lookup \<^verbatim>\<open>time.time\<close> is its
  first step. Lines 28 to 30 (the sleep) come after it and have no effect on the
  exchange besides the delay; past them the loop repeats the request.
\<close>

partial_function (option) safe_get ::
  "'s net \<Rightarrow> request \<Rightarrow> 's world \<Rightarrow> ((pyerr + response) \<times> 's world) option" where
  "safe_get net req w =
     (case requests_get net req w of
        (response, w1) \<Rightarrow>
          if status_code response = 429 then
            (case time_getattr ''time'' of
               Inl e \<Rightarrow> Some (Inl e, w1)
             | Inr _ \<Rightarrow> safe_get net req w1)
          else Some (Inr response, w1))"

subsection \<open>\<^verbatim>\<open>download_intraday_dict\<close>\<close>

text \<open>Truth value of \<^verbatim>\<open>next_token\<close>: \<^verbatim>\<open>None\<close> and the empty string are false.\<close>

fun truthy :: "string option \<Rightarrow> bool" where
  "truthy None = False"
| "truthy (Some s) = (s \<noteq> [])"

definition page_params ::
  "string \<Rightarrow> string \<Rightarrow> string \<Rightarrow> string \<Rightarrow> int \<Rightarrow> string option \<Rightarrow> (string \<times> param) list" where
  "page_params symbols timeframe start end limit next_token =
     [(''symbols'', PStr symbols), (''timeframe'', PStr timeframe),
      (''start'', PStr start), (''end'', PStr end),
      (''adjustment'', PStr ''raw''), (''feed'', PStr ''sip''),
      (''sort'', PStr ''asc''), (''limit'', PInt limit)]
     @ (case next_token of
          None \<Rightarrow> []
        | Some tok \<Rightarrow> if tok \<noteq> [] then [(''page_token'', PStr tok)] else [])"

definition auth_headers :: "string \<Rightarrow> string \<Rightarrow> (string \<times> string) list" where
  "auth_headers api_key secret_key =
     [(''accept'', ''application/json''),
      (''APCA-API-KEY-ID'', api_key),
      (''APCA-API-SECRET-KEY'', secret_key)]"

definition BASE_URL :: string where
  "BASE_URL = ''https://data.alpaca.markets/v2/stocks/bars''"

definition page_request ::
  "string \<Rightarrow> string \<Rightarrow> string \<Rightarrow> string \<Rightarrow> int \<Rightarrow> string \<Rightarrow> string \<Rightarrow> string option \<Rightarrow> request" where
  "page_request symbols timeframe start end limit api_key secret_key next_token =
     \<lparr>url = BASE_URL,
      req_headers = auth_headers api_key secret_key,
      params = page_params symbols timeframe start end limit next_token\<rparr>"

text \<open>\<^verbatim>\<open>symbol_bars.setdefault(symbol, []).extend(barlist)\<close>\<close>

fun setdefault_extend :: "string \<Rightarrow> bar list \<Rightarrow> symbol_bars \<Rightarrow> symbol_bars" where
  "setdefault_extend symbol barlist [] = [(symbol, barlist)]"
| "setdefault_extend symbol barlist ((k, v) # rest) =
     (if k = symbol then (k, v @ barlist) # rest
      else (k, v) # setdefault_extend symbol barlist rest)"

text \<open>The loop of lines 89 and 90 over one page's items, in the page's order.\<close>

fun merge_page :: "symbol_bars \<Rightarrow> symbol_bars \<Rightarrow> symbol_bars" where
  "merge_page symbol_bars [] = symbol_bars"
| "merge_page symbol_bars ((symbol, barlist) # rest) =
     merge_page (setdefault_extend symbol barlist symbol_bars) rest"

definition page_bars :: "payload \<Rightarrow> symbol_bars" where
  "page_bars data = (case bars data of None \<Rightarrow> [] | Some b \<Rightarrow> b)"

text \<open>The pagination loop of lines 72 to 99, from the current token and accumulator.\<close>

partial_function (option) fetch_pages ::
  "'s net \<Rightarrow> (string option \<Rightarrow> request) \<Rightarrow> string option \<Rightarrow> symbol_bars \<Rightarrow> 's world \<Rightarrow>
     ((pyerr + symbol_bars) \<times> 's world) option" where
  "fetch_pages net mk_request next_token symbol_bars w =
     Option.bind (safe_get net (mk_request next_token) w) (\<lambda>(res, w1).
       case res of
         Inl e \<Rightarrow> Some (Inl e, w1)
       | Inr response \<Rightarrow>
           (case json response of
              None \<Rightarrow> Some (Inl JSONDecodeError, w1)
            | Some data \<Rightarrow>
                if truthy (next_page_token data)
                then fetch_pages net mk_request (next_page_token data)
                       (merge_page symbol_bars (page_bars data)) w1
                else Some (Inr (merge_page symbol_bars (page_bars data)), w1)))"

definition download_intraday_dict ::
  "'s net \<Rightarrow> string \<Rightarrow> string \<Rightarrow> string \<Rightarrow> string \<Rightarrow> int \<Rightarrow> string \<Rightarrow> string \<Rightarrow> bool \<Rightarrow>
     's world \<Rightarrow> ((pyerr + symbol_bars) \<times> 's world) option" where
  "download_intraday_dict net symbols timeframe start end limit api_key secret_key stocks w =
     (if limit > 10000
      then Some (Inl (ValueError ''limit must be <= 10000 (Alpaca API restriction)''), w)
      else if \<not> stocks then Some (Inl (UnboundLocalError ''BASE_URL''), w)
      else fetch_pages net
             (page_request symbols timeframe start end limit api_key secret_key) None [] w)"

text \<open>
  What a response contributes to the loop: \<open>is_page\<close> holds of a response that \<^verbatim>\<open>safe_get\<close>
  returns and whose body parses; \<open>response_token\<close> and \<open>response_bars\<close> are the values of
  \<^verbatim>\<open>data.get("next_page_token")\<close> and \<^verbatim>\<open>data.get("bars", {})\<close>. \<open>bars_of symbol d\<close> is the list of
  bars that the items of \<open>d\<close> hold for a symbol.
\<close>

definition is_page :: "response \<Rightarrow> bool" where
  "is_page r = (status_code r \<noteq> 429 \<and> json r \<noteq> None)"

definition response_token :: "response \<Rightarrow> string option" where
  "response_token r = (case json r of None \<Rightarrow> None | Some data \<Rightarrow> next_page_token data)"

definition response_bars :: "response \<Rightarrow> symbol_bars" where
  "response_bars r = (case json r of None \<Rightarrow> [] | Some data \<Rightarrow> page_bars data)"

fun bars_of :: "string \<Rightarrow> symbol_bars \<Rightarrow> bar list" where
  "bars_of symbol [] = []"
| "bars_of symbol ((k, v) # rest) = (if k = symbol then v @ bars_of symbol rest else bars_of symbol rest)"

section \<open>The cleaner\<close>

text \<open>
  A \<^verbatim>\<open>datetime.time\<close> value: hour, minute, second, microsecond. Python compares two of them
  as it compares the four-tuples.
\<close>

datatype pytime = Time int int int int

fun time_le :: "pytime \<Rightarrow> pytime \<Rightarrow> bool" where
  "time_le (Time h1 m1 s1 u1) (Time h2 m2 s2 u2) =
     (h1 < h2 \<or> (h1 = h2 \<and> (m1 < m2 \<or> (m1 = m2 \<and> (s1 < s2 \<or> (s1 = s2 \<and> u1 \<le> u2))))))"

fun time_lt :: "pytime \<Rightarrow> pytime \<Rightarrow> bool" where
  "time_lt (Time h1 m1 s1 u1) (Time h2 m2 s2 u2) =
     (h1 < h2 \<or> (h1 = h2 \<and> (m1 < m2 \<or> (m1 = m2 \<and> (s1 < s2 \<or> (s1 = s2 \<and> u1 < u2))))))"

text \<open>
  The time zone database is not part of the repository: the conversion
  \<^verbatim>\<open>.dt.tz_convert('US/Eastern')\<close> is a parameter, the function that gives an instant's
  calendar date and wall-clock time in that zone (what \<^verbatim>\<open>.date\<close> and \<^verbatim>\<open>.dt.time\<close> read off the
  converted timestamp). A date is its proleptic ordinal: dates compare as their ordinals.
\<close>

type_synonym zone = "int \<Rightarrow> int \<times> pytime"

text \<open>
  A row of the data frame: the index (\<open>datetime\<close>, the instant; two index entries are
  equal when they are the same instant) and the renamed columns in the order of line 145.
  Line 179 adds the column \<^verbatim>\<open>symbol\<close>.
\<close>

record row =
  datetime :: int
  col_open :: real
  col_high :: real
  col_low :: real
  col_close :: real
  col_volume :: int
  col_count :: int
  col_vwap :: real

record srow = row +
  col_symbol :: string

definition row_of_bar :: "bar \<Rightarrow> row" where
  "row_of_bar b =
     \<lparr>datetime = bar_t b, col_open = bar_o b, col_high = bar_h b, col_low = bar_l b,
      col_close = bar_c b, col_volume = bar_v b, col_count = bar_n b, col_vwap = bar_vw b\<rparr>"

definition tag_symbol :: "string \<Rightarrow> row \<Rightarrow> srow" where
  "tag_symbol symbol r = row.extend r \<lparr>col_symbol = symbol\<rparr>"

definition local_date :: "zone \<Rightarrow> 'a row_scheme \<Rightarrow> int" where
  "local_date eastern r = fst (eastern (datetime r))"

definition local_time :: "zone \<Rightarrow> 'a row_scheme \<Rightarrow> pytime" where
  "local_time eastern r = snd (eastern (datetime r))"

text \<open>
  Lines 131 to 137. \<^verbatim>\<open>pd.DataFrame([])\<close> has no columns, so for an empty bar list the
  lookup \<^verbatim>\<open>temp_df['datetime']\<close> of line 137 raises.
\<close>

definition to_frame :: "bar list \<Rightarrow> pyerr + row list" where
  "to_frame barlist =
     (if barlist = [] then Inl (KeyError ''datetime'') else Inr (map row_of_bar barlist))"

text \<open>Line 138: \<^verbatim>\<open>between\<close> includes both of its bounds.\<close>

definition between :: "pytime \<Rightarrow> pytime \<Rightarrow> pytime \<Rightarrow> bool" where
  "between left right x = (time_le left x \<and> time_le x right)"

definition in_session :: "zone \<Rightarrow> 'a row_scheme \<Rightarrow> bool" where
  "in_session eastern r = between (Time 9 30 0 0) (Time 15 55 0 0) (local_time eastern r)"

text \<open>The frame after line 138, for a non-empty bar list.\<close>

definition session_frame :: "zone \<Rightarrow> bar list \<Rightarrow> row list" where
  "session_frame eastern barlist = filter (in_session eastern) (map row_of_bar barlist)"

text \<open>Line 147: \<^verbatim>\<open>np.unique\<close> gives the distinct values in ascending order.\<close>

definition np_unique :: "int list \<Rightarrow> int list" where
  "np_unique xs = sort (remdups xs)"

text \<open>Line 153: the rows of one calendar date, in the frame's order.\<close>

definition day_rows :: "zone \<Rightarrow> int \<Rightarrow> 'a row_scheme list \<Rightarrow> 'a row_scheme list" where
  "day_rows eastern date temp_df = filter (\<lambda>r. local_date eastern r = date) temp_df"

text \<open>The loop of lines 152 to 163: the list \<^verbatim>\<open>temp_com_day_list\<close> it builds.\<close>

fun complete_days :: "zone \<Rightarrow> row list \<Rightarrow> int list \<Rightarrow> row list list" where
  "complete_days eastern temp_df [] = []"
| "complete_days eastern temp_df (date # rest) =
     (if length (day_rows eastern date temp_df) \<ge> 78
      then day_rows eastern date temp_df # complete_days eastern temp_df rest
      else complete_days eastern temp_df rest)"

text \<open>\<^verbatim>\<open>pd.concat\<close> of a list of frames; it refuses the empty list.\<close>

definition pd_concat :: "'a list list \<Rightarrow> pyerr + 'a list" where
  "pd_concat frames =
     (if frames = [] then Inl (ValueError ''No objects to concatenate'')
      else Inr (concat frames))"

text \<open>
  Line 173, \<^verbatim>\<open>temp_df[~temp_df.index.duplicated(keep='first')]\<close>: a row is dropped when its
  index value occurred in an earlier row; \<open>seen\<close> holds the index values met so far.
\<close>

fun keep_first :: "int list \<Rightarrow> row list \<Rightarrow> row list" where
  "keep_first seen [] = []"
| "keep_first seen (r # rs) =
     (if datetime r \<in> set seen then keep_first seen rs
      else r # keep_first (datetime r # seen) rs)"

text \<open>The body of the loop of line 130 for one symbol.\<close>

definition clean_symbol :: "zone \<Rightarrow> string \<Rightarrow> bar list \<Rightarrow> pyerr + srow list" where
  "clean_symbol eastern symbol barlist =
     (case to_frame barlist of
        Inl e \<Rightarrow> Inl e
      | Inr frame \<Rightarrow>
          (let temp_df = filter (in_session eastern) frame;
               temp_date_range = np_unique (map (local_date eastern) temp_df);
               temp_com_day_list = complete_days eastern temp_df temp_date_range
           in case pd_concat temp_com_day_list of
                Inl e \<Rightarrow> Inl e
              | Inr stacked \<Rightarrow> Inr (map (tag_symbol symbol) (keep_first [] stacked))))"

text \<open>\<^verbatim>\<open>df_dict[symbol] = temp_df\<close>\<close>

fun dict_set :: "string \<Rightarrow> 'v \<Rightarrow> (string \<times> 'v) list \<Rightarrow> (string \<times> 'v) list" where
  "dict_set k v [] = [(k, v)]"
| "dict_set k v ((k', v') # rest) =
     (if k' = k then (k', v) # rest else (k', v') # dict_set k v rest)"

text \<open>The loop of line 130 over the fetched symbols; an exception ends it.\<close>

fun clean_all ::
  "zone \<Rightarrow> symbol_bars \<Rightarrow> (string \<times> srow list) list \<Rightarrow> pyerr + (string \<times> srow list) list" where
  "clean_all eastern [] df_dict = Inr df_dict"
| "clean_all eastern ((symbol, barlist) # rest) df_dict =
     (case clean_symbol eastern symbol barlist of
        Inl e \<Rightarrow> Inl e
      | Inr temp_df \<Rightarrow> clean_all eastern rest (dict_set symbol temp_df df_dict))"

definition download_intraday ::
  "'s net \<Rightarrow> zone \<Rightarrow> string \<Rightarrow> string \<Rightarrow> string \<Rightarrow> string \<Rightarrow> int \<Rightarrow> string \<Rightarrow> string \<Rightarrow>
     's world \<Rightarrow> ((pyerr + (string \<times> srow list) list) \<times> 's world) option" where
  "download_intraday net eastern symbols timeframe start end limit api_key secret_key w =
     Option.bind
       (download_intraday_dict net symbols timeframe start end limit api_key secret_key True w)
       (\<lambda>(res, w1).
          case res of
            Inl e \<Rightarrow> Some (Inl e, w1)
          | Inr symbol_bars \<Rightarrow> Some (clean_all eastern symbol_bars [], w1))"

section \<open>The aggregator and the driver\<close>

definition stack_data :: "(string \<times> srow list) list \<Rightarrow> pyerr + srow list" where
  "stack_data df_dict = pd_concat (map snd df_dict)"

definition usage :: string where
  "usage = ''Usage: python download_data.py <SYMBOLS> <FREQ> <START_DATE> <END_DATE> <LIMIT> <API_KEY> <SECRET_KEY> (<STACK>)''"

text \<open>
  How a run of the script ends: \<open>Exited status printed\<close> for \<^verbatim>\<open>sys.exit\<close>, with the lines
  printed before it; \<open>Raised\<close> for an exception that nothing catches; \<open>Finished\<close> with the
  tables that were pickled, one per symbol, and the value of \<^verbatim>\<open>stack_df\<close> when line 39 has
  run. The progress messages of a run that downloads, and the files, are left out.
\<close>

datatype outcome =
    Exited int "string list"
  | Raised pyerr
  | Finished "(string \<times> srow list) list" "srow list option"

text \<open>Lines 9 to 15: \<open>None\<close> when the script goes on.\<close>

definition check_args :: "string list \<Rightarrow> outcome option" where
  "check_args argv =
     (if length argv < 8 \<or> length argv > 9 then Some (Exited 1 [usage])
      else if argv ! 1 \<in> set [''-h'', ''--help''] then Some (Exited 0 [usage])
      else None)"

text \<open>Lines 37 and 38: whether line 39 runs.\<close>

definition stack_requested :: "string list \<Rightarrow> bool" where
  "stack_requested argv = (length argv = 9 \<and> argv ! 6 = ''stack'')"

text \<open>
  The script. \<open>py_int\<close> is Python's \<^verbatim>\<open>int\<close> on a string and \<open>to_date\<close> is
  \<^verbatim>\<open>pd.to_datetime(s).date()\<close>, both \<open>None\<close> where they raise; they are library code and
  taken as parameters.
\<close>

definition main ::
  "'s net \<Rightarrow> zone \<Rightarrow> (string \<Rightarrow> int option) \<Rightarrow> (string \<Rightarrow> int option) \<Rightarrow> string list \<Rightarrow>
     's world \<Rightarrow> (outcome \<times> 's world) option" where
  "main net eastern py_int to_date argv w =
     (case check_args argv of
        Some out \<Rightarrow> Some (out, w)
      | None \<Rightarrow>
          (case py_int (argv ! 5) of
             None \<Rightarrow> Some (Raised (ValueError ''int''), w)
           | Some limit \<Rightarrow>
               if to_date (argv ! 3) = None \<or> to_date (argv ! 4) = None
               then Some (Raised (ValueError ''to_datetime''), w)
               else Option.bind
                 (download_intraday net eastern (argv ! 1) (argv ! 2) (argv ! 3) (argv ! 4)
                    limit (argv ! 6) (argv ! 7) w)
                 (\<lambda>(res, w1).
                    case res of
                      Inl e \<Rightarrow> Some (Raised e, w1)
                    | Inr df_dict \<Rightarrow>
                        if stack_requested argv
                        then (case stack_data df_dict of
                                Inl e \<Rightarrow> Some (Raised e, w1)
                              | Inr stack_df \<Rightarrow> Some (Finished df_dict (Some stack_df), w1))
                        else Some (Finished df_dict None, w1))))"

section \<open>Concrete inputs\<close>

text \<open>
  A server that answers from a script, one response per request, whatever the request;
  past the end of the script it answers 503 with no JSON.
\<close>

fun scripted :: "response list net" where
  "scripted [] req = (\<lparr>status_code = 503, resp_headers = [], json = None\<rparr>, [])"
| "scripted (r # rs) req = (r, rs)"

definition page :: "symbol_bars \<Rightarrow> string option \<Rightarrow> response" where
  "page b tok =
     \<lparr>status_code = 200, resp_headers = [],
      json = Some \<lparr>bars = Some b, next_page_token = tok\<rparr>\<rparr>"

text \<open>A throttled response, with the reset hint in its headers.\<close>

definition too_many :: response where
  "too_many = \<lparr>status_code = 429, resp_headers = [(''X-RateLimit-Reset'', ''60'')], json = None\<rparr>"

text \<open>
  A zone with the fixed offset of five hours behind UTC (Eastern standard time), for
  instants counted in seconds.
\<close>

definition est :: zone where
  "est t =
     (let l = t - 18000; s = l mod 86400
      in (l div 86400, Time (s div 3600) (s mod 3600 div 60) (s mod 60) 0))"

definition bar_at :: "int \<Rightarrow> bar" where
  "bar_at t =
     \<lparr>bar_t = t, bar_o = 1, bar_h = 1, bar_l = 1, bar_c = 1, bar_v = 0, bar_n = 0, bar_vw = 1\<rparr>"

text \<open>
  The instant of the \<open>i\<close>-th five-minute bar of day \<open>d\<close>, counted from 09:30 Eastern standard
  time (14:30 UTC), so that bar 77 is the one of 15:55.
\<close>

definition bar_time :: "int \<Rightarrow> nat \<Rightarrow> int" where
  "bar_time d i = d * 86400 + 52200 + 300 * int i"

definition session_bars :: "int \<Rightarrow> nat list \<Rightarrow> bar list" where
  "session_bars d slots = map (\<lambda>i. bar_at (bar_time d i)) slots"

definition session_table :: "string \<Rightarrow> int \<Rightarrow> nat list \<Rightarrow> srow list" where
  "session_table symbol d slots =
     map (\<lambda>i. tag_symbol symbol (row_of_bar (bar_at (bar_time d i)))) slots"

section \<open>Facts about the fetcher\<close>

lemma time_getattr_time: "time_getattr ''time'' = Inl (AttributeError ''time'')"
  by (simp add: time_getattr_def datetime_time_attrs_def)

lemma safe_get_eq:
  "safe_get net req w =
     (case requests_get net req w of
        (response, w1) \<Rightarrow>
          if status_code response = 429 then Some (Inl (AttributeError ''time''), w1)
          else Some (Inr response, w1))"
  by (subst safe_get.simps) (simp add: time_getattr_time split: prod.splits)

lemma requests_get_sent:
  "requests_get net req w = (r, w1) \<Longrightarrow> sent w1 = sent w @ [req]"
  by (auto simp: requests_get_def split: prod.splits)

lemma requests_get_scripted:
  "requests_get scripted req \<lparr>server = r # rs, sent = issued\<rparr> = (r, \<lparr>server = rs, sent = issued @ [req]\<rparr>)"
  by (simp add: requests_get_def)

lemma fetch_pages_last:
  assumes "requests_get net (mk tok) w = (r, w1)" "status_code r \<noteq> 429"
    and "json r = Some data" "\<not> truthy (next_page_token data)"
  shows "fetch_pages net mk tok acc w = Some (Inr (merge_page acc (page_bars data)), w1)"
  using assms by (subst fetch_pages.simps) (simp add: safe_get_eq)

lemma fetch_pages_more:
  assumes "requests_get net (mk tok) w = (r, w1)" "status_code r \<noteq> 429"
    and "json r = Some data" "truthy (next_page_token data)"
  shows "fetch_pages net mk tok acc w =
           fetch_pages net mk (next_page_token data) (merge_page acc (page_bars data)) w1"
  using assms by (subst fetch_pages.simps) (simp add: safe_get_eq)

lemma fetch_pages_scripted:
  assumes "pages \<noteq> []" "\<forall>r\<in>set pages. is_page r"
    and "\<forall>r\<in>set (butlast pages). truthy (response_token r)"
    and "\<not> truthy (response_token (last pages))"
  shows "fetch_pages scripted mk tok acc \<lparr>server = pages @ rest, sent = issued\<rparr> =
           Some (Inr (foldl merge_page acc (map response_bars pages)),
                 \<lparr>server = rest,
                  sent = issued @ map mk (tok # map response_token (butlast pages))\<rparr>)"
  using assms
proof (induction pages arbitrary: tok acc issued)
  case Nil
  then show ?case by simp
next
  case (Cons r rs)
  from Cons.prems(2) obtain data where r: "status_code r \<noteq> 429" "json r = Some data"
    by (auto simp: is_page_def)
  have rb: "response_bars r = page_bars data" and rt: "response_token r = next_page_token data"
    using r by (simp_all add: response_bars_def response_token_def)
  have get: "requests_get scripted (mk tok) \<lparr>server = (r # rs) @ rest, sent = issued\<rparr> =
               (r, \<lparr>server = rs @ rest, sent = issued @ [mk tok]\<rparr>)"
    by (simp add: requests_get_scripted)
  show ?case
  proof (cases "rs = []")
    case True
    with Cons.prems(4) rt have "\<not> truthy (next_page_token data)"
      by simp
    from fetch_pages_last[where mk=mk and tok=tok, OF get r this] True show ?thesis
      by (simp add: rb)
  next
    case False
    with Cons.prems(3) rt have t: "truthy (next_page_token data)"
      by simp
    have ih: "fetch_pages scripted mk (next_page_token data) (merge_page acc (page_bars data))
                \<lparr>server = rs @ rest, sent = issued @ [mk tok]\<rparr> =
              Some (Inr (foldl merge_page (merge_page acc (page_bars data)) (map response_bars rs)),
                    \<lparr>server = rest,
                     sent = (issued @ [mk tok]) @
                       map mk (next_page_token data # map response_token (butlast rs))\<rparr>)"
      using Cons.prems False by (intro Cons.IH) auto
    from fetch_pages_more[where mk=mk and tok=tok, OF get r t] ih False show ?thesis
      by (simp add: rb rt)
  qed
qed

lemma fetch_pages_sent:
  assumes "fetch_pages net mk tok acc w = Some y"
  shows "prefix (sent w @ [mk tok]) (sent (snd y)) \<and> (\<forall>m. fst y \<noteq> Inl (ValueError m))"
  using assms
proof (induction rule: fetch_pages.raw_induct[rotated 1, consumes 1])
  case (1 fetch_pages net mk tok acc w y)
  obtain r w1 where get: "requests_get net (mk tok) w = (r, w1)"
    by (cases "requests_get net (mk tok) w")
  then have w1: "sent w1 = sent w @ [mk tok]"
    by (rule requests_get_sent)
  show ?case
  proof (cases "status_code r = 429")
    case True
    with 1(2) get have y: "y = (Inl (AttributeError ''time''), w1)"
      by (simp add: safe_get_eq)
    show ?thesis unfolding y by (simp add: w1)
  next
    case False
    show ?thesis
    proof (cases "json r")
      case None
      with 1(2) get False have y: "y = (Inl JSONDecodeError, w1)"
        by (simp add: safe_get_eq)
      show ?thesis unfolding y by (simp add: w1)
    next
      case (Some data)
      show ?thesis
      proof (cases "truthy (next_page_token data)")
        case True
        with 1(2) get False Some
        have "fetch_pages net mk (next_page_token data) (merge_page acc (page_bars data)) w1 = Some y"
          by (simp add: safe_get_eq)
        from 1(1)[OF this] have "prefix (sent w1 @ [mk (next_page_token data)]) (sent (snd y))"
          and e: "\<forall>m. fst y \<noteq> Inl (ValueError m)"
          by simp_all
        then have "prefix (sent w1) (sent (snd y))"
          using append_prefixD by blast
        with e w1 show ?thesis by simp
      next
        case F: False
        with 1(2) get False Some have y: "y = (Inr (merge_page acc (page_bars data)), w1)"
          by (simp add: safe_get_eq)
        show ?thesis unfolding y by (simp add: w1)
      qed
    qed
  qed
qed

lemma setdefault_extend_keys:
  "fst ` set (setdefault_extend k b acc) = insert k (fst ` set acc)"
  by (induction k b acc rule: setdefault_extend.induct) auto

lemma setdefault_extend_distinct:
  "distinct (map fst acc) \<Longrightarrow> distinct (map fst (setdefault_extend k b acc))"
proof (induction k b acc rule: setdefault_extend.induct)
  case (1 symbol barlist)
  then show ?case by simp
next
  case (2 symbol barlist k v rest)
  then show ?case
    using setdefault_extend_keys[of symbol barlist rest] by (auto simp: image_iff)
qed

lemma bars_of_absent: "k \<notin> fst ` set acc \<Longrightarrow> bars_of k acc = []"
  by (induction acc) (auto split: prod.splits)

lemma bars_of_setdefault_extend:
  "distinct (map fst acc) \<Longrightarrow>
   bars_of s (setdefault_extend k b acc) = bars_of s acc @ (if k = s then b else [])"
  by (induction k b acc rule: setdefault_extend.induct) (auto simp: bars_of_absent)

lemma merge_page_distinct:
  "distinct (map fst acc) \<Longrightarrow> distinct (map fst (merge_page acc pg))"
  by (induction acc pg rule: merge_page.induct) (auto simp: setdefault_extend_distinct)

lemma bars_of_merge_page:
  "distinct (map fst acc) \<Longrightarrow> bars_of s (merge_page acc pg) = bars_of s acc @ bars_of s pg"
  by (induction acc pg rule: merge_page.induct)
     (auto simp: bars_of_setdefault_extend setdefault_extend_distinct)

lemma foldl_merge_page:
  "distinct (map fst acc) \<Longrightarrow>
   distinct (map fst (foldl merge_page acc pgs)) \<and>
   bars_of s (foldl merge_page acc pgs) = bars_of s acc @ concat (map (bars_of s) pgs)"
  by (induction pgs arbitrary: acc) (auto simp: merge_page_distinct bars_of_merge_page)

lemma one_page_dict:
  "limit \<le> 10000 \<Longrightarrow>
   download_intraday_dict scripted symbols timeframe start end limit api_key secret_key True
     \<lparr>server = [page b None], sent = []\<rparr> =
   Some (Inr (merge_page [] b),
         \<lparr>server = [],
          sent = [page_request symbols timeframe start end limit api_key secret_key None]\<rparr>)"
  using fetch_pages_scripted[of "[page b None]"
      "page_request symbols timeframe start end limit api_key secret_key" None "[]" "[]" "[]"]
  by (simp add: download_intraday_dict_def is_page_def response_token_def response_bars_def
      page_def page_bars_def)

section \<open>Facts about the cleaner\<close>

lemma datetime_tag_symbol [simp]: "datetime (tag_symbol s r) = datetime r"
  by (simp add: tag_symbol_def row.defs)

lemma local_date_tag_symbol [simp]: "local_date e (tag_symbol s r) = local_date e r"
  by (simp add: local_date_def)

lemma local_time_tag_symbol [simp]: "local_time e (tag_symbol s r) = local_time e r"
  by (simp add: local_time_def)

lemma in_session_tag_symbol [simp]: "in_session e (tag_symbol s r) = in_session e r"
  by (simp add: in_session_def)

lemma datetime_row_of_bar [simp]: "datetime (row_of_bar b) = bar_t b"
  by (simp add: row_of_bar_def)

lemma day_rows_map_tag:
  "day_rows e d (map (tag_symbol s) rs) = map (tag_symbol s) (day_rows e d rs)"
  by (simp add: day_rows_def filter_map comp_def)

subsection \<open>keep_first\<close>

lemma keep_first_subseq: "subseq (keep_first seen rs) rs"
  by (induction rs arbitrary: seen) auto

lemma keep_first_subset: "set (keep_first seen rs) \<subseteq> set rs"
  by (induction rs arbitrary: seen) auto

lemma keep_first_datetimes:
  "datetime ` set (keep_first seen rs) = datetime ` set rs - set seen"
  by (induction rs arbitrary: seen) auto

lemma keep_first_distinct: "distinct (map datetime (keep_first seen rs))"
  by (induction rs arbitrary: seen) (auto simp: keep_first_datetimes)

lemma keep_first_id:
  "distinct (map datetime rs) \<Longrightarrow> datetime ` set rs \<inter> set seen = {} \<Longrightarrow> keep_first seen rs = rs"
  by (induction rs arbitrary: seen) auto

lemma keep_first_filter:
  "{x \<in> set seen. Q x} = {x \<in> set seen'. Q x} \<Longrightarrow>
   filter (\<lambda>r. Q (datetime r)) (keep_first seen rs) =
   keep_first seen' (filter (\<lambda>r. Q (datetime r)) rs)"
proof (induction rs arbitrary: seen seen')
  case Nil
  then show ?case by simp
next
  case (Cons r rs)
  show ?case
  proof (cases "Q (datetime r)")
    case True
    with Cons.prems have mem: "datetime r \<in> set seen \<longleftrightarrow> datetime r \<in> set seen'"
      by blast
    have "{x \<in> set (datetime r # seen). Q x} = {x \<in> set (datetime r # seen'). Q x}"
      using Cons.prems by auto
    from Cons.IH[OF this] Cons.IH[OF Cons.prems] True mem show ?thesis
      by simp
  next
    case False
    then have "{x \<in> set (datetime r # seen). Q x} = {x \<in> set seen'. Q x}"
      using Cons.prems by auto
    from Cons.IH[OF this] Cons.IH[OF Cons.prems] False show ?thesis
      by simp
  qed
qed

lemma keep_first_nonempty: "rs \<noteq> [] \<Longrightarrow> keep_first [] rs \<noteq> []"
  by (cases rs) auto

lemma keep_first_sorted_wrt: "sorted_wrt P rs \<Longrightarrow> sorted_wrt P (keep_first seen rs)"
proof (induction rs arbitrary: seen)
  case Nil
  then show ?case by simp
next
  case (Cons r rs)
  then show ?case
    using keep_first_subset[of "datetime r # seen" rs] by auto
qed

lemma keep_first_append_new:
  "datetime x \<in> datetime ` set rs \<union> set seen \<Longrightarrow>
   keep_first seen (rs @ [x]) = keep_first seen rs"
  by (induction rs arbitrary: seen) auto

subsection \<open>The loop over the dates\<close>

lemma day_rows_date: "r \<in> set (day_rows e d F) \<Longrightarrow> local_date e r = d"
  by (simp add: day_rows_def)

lemma day_rows_subset: "set (day_rows e d F) \<subseteq> set F"
  by (auto simp: day_rows_def)

lemma day_rows_day_rows:
  "day_rows e d (day_rows e d' F) = (if d = d' then day_rows e d F else [])"
  by (induction F) (auto simp: day_rows_def)

lemma day_rows_append: "day_rows e d (xs @ ys) = day_rows e d xs @ day_rows e d ys"
  by (simp add: day_rows_def)

lemma complete_days_subset: "r \<in> set (concat (complete_days e F ds)) \<Longrightarrow> r \<in> set F"
  by (induction ds) (auto simp: day_rows_def split: if_splits)

lemma complete_days_dates:
  "r \<in> set (concat (complete_days e F ds)) \<Longrightarrow> local_date e r \<in> set ds"
  by (induction ds) (auto dest: day_rows_date split: if_splits)

lemma day_rows_complete_days:
  "distinct ds \<Longrightarrow>
   day_rows e d (concat (complete_days e F ds)) =
     (if d \<in> set ds \<and> 78 \<le> length (day_rows e d F) then day_rows e d F else [])"
proof (induction ds)
  case Nil
  then show ?case by (simp add: day_rows_def)
next
  case (Cons a ds)
  then show ?case
    by (auto simp: day_rows_append day_rows_day_rows)
qed

lemma sorted_map_const: "\<forall>x\<in>set xs. f x = (a::int) \<Longrightarrow> sorted (map f xs)"
  by (induction xs) auto

lemma complete_days_sorted_dates:
  "sorted ds \<Longrightarrow> sorted (map (local_date e) (concat (complete_days e F ds)))"
proof (induction ds)
  case Nil
  then show ?case by simp
next
  case (Cons a ds)
  have cross: "local_date e x \<le> local_date e y"
    if "x \<in> set (day_rows e a F)" "y \<in> set (concat (complete_days e F ds))" for x y
  proof -
    have "local_date e x = a" using that(1) by (rule day_rows_date)
    moreover have "local_date e y \<in> set ds" using that(2) by (rule complete_days_dates)
    ultimately show ?thesis using Cons.prems by auto
  qed
  have same: "sorted (map (local_date e) (day_rows e a F))"
    by (rule sorted_map_const[where a=a]) (simp add: day_rows_def)
  have rest: "sorted (map (local_date e) (concat (complete_days e F ds)))"
    using Cons by simp
  show ?case
    using cross same rest by (auto simp: sorted_append)
qed

subsection \<open>One symbol\<close>

lemma np_unique_props: "sorted (np_unique xs)" "distinct (np_unique xs)" "set (np_unique xs) = set xs"
  by (simp_all add: np_unique_def)

lemma clean_symbol_Inr:
  assumes "clean_symbol e symbol barlist = Inr table"
  shows "barlist \<noteq> []"
    and "table = map (tag_symbol symbol) (keep_first []
           (concat (complete_days e (session_frame e barlist)
              (np_unique (map (local_date e) (session_frame e barlist))))))"
  using assms
  by (auto simp: clean_symbol_def to_frame_def pd_concat_def session_frame_def Let_def
      split: if_splits)

lemma clean_symbol_day_rows:
  assumes "clean_symbol e symbol barlist = Inr table"
  shows "day_rows e d table =
     (if 78 \<le> length (day_rows e d (session_frame e barlist))
      then map (tag_symbol symbol) (keep_first [] (day_rows e d (session_frame e barlist)))
      else [])"
proof -
  let ?F = "session_frame e barlist"
  let ?ds = "np_unique (map (local_date e) ?F)"
  let ?C = "concat (complete_days e ?F ?ds)"
  have t: "table = map (tag_symbol symbol) (keep_first [] ?C)"
    using clean_symbol_Inr(2)[OF assms] .
  have kf: "day_rows e d (keep_first [] ?C) = keep_first [] (day_rows e d ?C)"
    unfolding day_rows_def local_date_def
    by (rule keep_first_filter[where Q="\<lambda>t. fst (e t) = d"]) simp
  have dr: "day_rows e d ?C =
     (if d \<in> set ?ds \<and> 78 \<le> length (day_rows e d ?F) then day_rows e d ?F else [])"
    by (rule day_rows_complete_days) (simp add: np_unique_props)
  have mem: "d \<in> set ?ds" if "78 \<le> length (day_rows e d ?F)"
  proof -
    from that have "day_rows e d ?F \<noteq> []" by auto
    then obtain r where "r \<in> set (day_rows e d ?F)" by (cases "day_rows e d ?F") auto
    then have "r \<in> set ?F" "local_date e r = d"
      by (auto simp: day_rows_def)
    then show ?thesis by (auto simp: np_unique_props)
  qed
  show ?thesis
    unfolding t day_rows_map_tag kf dr using mem by auto
qed

subsection \<open>From the tables of a download to the cleaning of one symbol\<close>

lemma dict_set_mem:
  "(k', v') \<in> set (dict_set k v d) \<Longrightarrow> (k', v') \<in> set d \<or> (k' = k \<and> v' = v)"
  by (induction k v d rule: dict_set.induct) (auto split: if_splits)

lemma clean_all_tables:
  "clean_all e sb acc = Inr d \<Longrightarrow> (symbol, table) \<in> set d \<Longrightarrow>
   (symbol, table) \<in> set acc \<or>
   (\<exists>barlist. (symbol, barlist) \<in> set sb \<and> clean_symbol e symbol barlist = Inr table)"
proof (induction e sb acc rule: clean_all.induct)
  case (1 eastern df_dict)
  then show ?case by simp
next
  case (2 eastern s b rest df_dict)
  from 2(2) obtain t where t: "clean_symbol eastern s b = Inr t"
    and rest: "clean_all eastern rest (dict_set s t df_dict) = Inr d"
    by (auto split: sum.splits)
  from 2(1)[OF t rest 2(3)]
  show ?case
  proof
    assume "(symbol, table) \<in> set (dict_set s t df_dict)"
    from dict_set_mem[OF this] t show ?thesis by auto
  next
    assume "\<exists>barlist. (symbol, barlist) \<in> set rest \<and> clean_symbol eastern symbol barlist = Inr table"
    then show ?thesis by auto
  qed
qed

lemma clean_all_fails:
  "(symbol, barlist) \<in> set sb \<Longrightarrow> clean_symbol e symbol barlist = Inl err \<Longrightarrow>
   \<exists>err'. clean_all e sb acc = Inl err'"
  by (induction e sb acc rule: clean_all.induct) (auto split: sum.splits)

lemma download_intraday_tables:
  assumes "download_intraday net e symbols timeframe start end limit api_key secret_key w =
             Some (Inr df_dict, w')"
    and "(symbol, table) \<in> set df_dict"
  shows "\<exists>symbol_bars barlist.
           download_intraday_dict net symbols timeframe start end limit api_key secret_key True w =
             Some (Inr symbol_bars, w') \<and>
           (symbol, barlist) \<in> set symbol_bars \<and>
           clean_symbol e symbol barlist = Inr table"
proof -
  from assms(1) obtain res w1 where
    d: "download_intraday_dict net symbols timeframe start end limit api_key secret_key True w =
          Some (res, w1)"
    and k: "(case res of Inl e \<Rightarrow> Some (Inl e, w1)
            | Inr symbol_bars \<Rightarrow> Some (clean_all e symbol_bars [], w1)) = Some (Inr df_dict, w')"
    by (auto simp: download_intraday_def bind_eq_Some_conv)
  from k obtain symbol_bars where r: "res = Inr symbol_bars" "w1 = w'"
    and c: "clean_all e symbol_bars [] = Inr df_dict"
    by (cases res) auto
  from clean_all_tables[OF c assms(2)] d r show ?thesis by auto
qed

subsection \<open>The example zone and the example sessions\<close>

lemma session_time_bounds:
  fixes s :: int
  assumes "34200 \<le> s" "s \<le> 57300"
  shows "between (Time 9 30 0 0) (Time 15 55 0 0)
           (Time (s div 3600) (s mod 3600 div 60) (s mod 60) 0)"
proof -
  define h where "h = s div 3600"
  define r where "r = s mod 3600"
  define m where "m = r div 60"
  define q where "q = r mod 60"
  have s: "s = 3600 * h + r" and r: "0 \<le> r" "r < 3600"
    by (simp_all add: h_def r_def)
  have rq: "r = 60 * m + q" and q: "0 \<le> q" "q < 60"
    by (simp_all add: m_def q_def)
  have "s mod 60 = (60 * (60 * h + m) + q) mod 60"
    by (simp add: s rq algebra_simps)
  also have "\<dots> = q mod 60"
    by (rule mod_mult_self4)
  also have "\<dots> = q"
    using q by (simp add: mod_pos_pos_trivial)
  finally have sq: "s mod 60 = q" .
  have "(9 < h \<or> (9 = h \<and> (30 < m \<or> (30 = m \<and> (0 < q \<or> 0 = q))))) \<and>
        (h < 15 \<or> (h = 15 \<and> (m < 55 \<or> (m = 55 \<and> (q < 0 \<or> q = 0)))))"
    using assms s r rq q by auto
  then show ?thesis
    unfolding between_def time_le.simps sq h_def[symmetric] r_def[symmetric] m_def[symmetric]
    by auto
qed

lemma est_bar_time:
  assumes "i < 78"
  shows "fst (est (bar_time d i)) = d"
    and "between (Time 9 30 0 0) (Time 15 55 0 0) (snd (est (bar_time d i)))"
proof -
  let ?s = "34200 + 300 * int i"
  have l: "bar_time d i - 18000 = d * 86400 + ?s"
    by (simp add: bar_time_def)
  have b: "0 \<le> ?s" "?s < 86400" "34200 \<le> ?s" "?s \<le> 57300"
    using assms by simp_all
  have "?s div 86400 = 0"
    using b(1,2) by (intro div_pos_pos_trivial)
  then have dv: "(bar_time d i - 18000) div 86400 = d"
    unfolding l by simp
  have "?s mod 86400 = ?s"
    using b(1,2) by (intro mod_pos_pos_trivial)
  then have md: "(bar_time d i - 18000) mod 86400 = ?s"
    unfolding l by simp
  show "fst (est (bar_time d i)) = d"
    by (simp add: est_def Let_def dv)
  show "between (Time 9 30 0 0) (Time 15 55 0 0) (snd (est (bar_time d i)))"
    using session_time_bounds[OF b(3,4)] by (simp add: est_def Let_def md)
qed

lemma est_last_bar: "est (bar_time 0 77) = (0, Time 15 55 0 0)"
  by (simp add: est_def bar_time_def Let_def)

lemma session_bars_in_session:
  assumes "\<forall>i\<in>set slots. i < 78"
  shows "\<forall>b\<in>set (session_bars d slots).
           in_session est (row_of_bar b) \<and> local_date est (row_of_bar b) = d"
  using assms est_bar_time
  by (auto simp: session_bars_def in_session_def local_time_def local_date_def bar_at_def)

lemma session_bars_distinct:
  "distinct slots \<Longrightarrow> distinct (map datetime (map row_of_bar (session_bars d slots)))"
  by (simp add: session_bars_def comp_def bar_at_def distinct_map inj_on_def bar_time_def)

lemma session_table_eq:
  "session_table symbol d slots = map (tag_symbol symbol) (map row_of_bar (session_bars d slots))"
  by (simp add: session_table_def session_bars_def)

subsection \<open>Cleaning bars that all lie in the session of one date\<close>

lemma remdups_const: "xs \<noteq> [] \<Longrightarrow> \<forall>x\<in>set xs. x = a \<Longrightarrow> remdups xs = [a]"
proof (induction xs)
  case Nil
  then show ?case by simp
next
  case (Cons x xs)
  then show ?case by (cases xs) auto
qed

lemma one_day_frame:
  assumes "barlist \<noteq> []"
    and "\<forall>b\<in>set barlist. in_session e (row_of_bar b) \<and> local_date e (row_of_bar b) = d"
  shows "session_frame e barlist = map row_of_bar barlist"
    and "np_unique (map (local_date e) (session_frame e barlist)) = [d]"
    and "day_rows e d (session_frame e barlist) = map row_of_bar barlist"
proof -
  show f: "session_frame e barlist = map row_of_bar barlist"
    using assms(2) by (simp add: session_frame_def)
  have "remdups (map (local_date e) (map row_of_bar barlist)) = [d]"
    using assms by (intro remdups_const) auto
  then show "np_unique (map (local_date e) (session_frame e barlist)) = [d]"
    by (simp add: f np_unique_def)
  show "day_rows e d (session_frame e barlist) = map row_of_bar barlist"
    using assms(2) by (simp add: f day_rows_def)
qed

lemma clean_symbol_unfold:
  "barlist \<noteq> [] \<Longrightarrow>
   clean_symbol e symbol barlist =
     (case pd_concat (complete_days e (session_frame e barlist)
                        (np_unique (map (local_date e) (session_frame e barlist)))) of
        Inl err \<Rightarrow> Inl err
      | Inr stacked \<Rightarrow> Inr (map (tag_symbol symbol) (keep_first [] stacked)))"
  by (simp add: clean_symbol_def to_frame_def session_frame_def Let_def)

lemma clean_symbol_one_day:
  assumes "\<forall>b\<in>set barlist. in_session e (row_of_bar b) \<and> local_date e (row_of_bar b) = d"
  shows "78 \<le> length barlist \<Longrightarrow>
         clean_symbol e symbol barlist =
           Inr (map (tag_symbol symbol) (keep_first [] (map row_of_bar barlist)))"
    and "barlist \<noteq> [] \<Longrightarrow> length barlist < 78 \<Longrightarrow>
         clean_symbol e symbol barlist = Inl (ValueError ''No objects to concatenate'')"
proof -
  let ?F = "session_frame e barlist"
  let ?ds = "np_unique (map (local_date e) ?F)"
  show "clean_symbol e symbol barlist =
           Inr (map (tag_symbol symbol) (keep_first [] (map row_of_bar barlist)))"
    if "78 \<le> length barlist"
  proof -
    from that have ne: "barlist \<noteq> []" by auto
    note fr = one_day_frame[OF ne assms]
    have "complete_days e ?F ?ds = [map row_of_bar barlist]"
      unfolding fr(2) using that by (simp add: fr(3))
    then show ?thesis
      unfolding clean_symbol_unfold[OF ne] by (simp add: pd_concat_def)
  qed
  show "clean_symbol e symbol barlist = Inl (ValueError ''No objects to concatenate'')"
    if ne: "barlist \<noteq> []" and "length barlist < 78"
  proof -
    note fr = one_day_frame[OF ne assms]
    have "complete_days e ?F ?ds = []"
      unfolding fr(2) using that(2) by (simp add: fr(3))
    then show ?thesis
      unfolding clean_symbol_unfold[OF ne] by (simp add: pd_concat_def)
  qed
qed

lemma one_page_download:
  "limit \<le> 10000 \<Longrightarrow>
   download_intraday scripted e symbols timeframe start end limit api_key secret_key
     \<lparr>server = [page [(symbol, barlist)] None], sent = []\<rparr> =
   Some (case clean_symbol e symbol barlist of
           Inl err \<Rightarrow> Inl err
         | Inr table \<Rightarrow> Inr [(symbol, table)],
         \<lparr>server = [],
          sent = [page_request symbols timeframe start end limit api_key secret_key None]\<rparr>)"
  by (simp add: download_intraday_def one_page_dict split: sum.splits)

lemma full_session_download:
  "download_intraday scripted est ''AAPL'' ''5Min'' ''1970-01-01'' ''1970-01-02'' 10000 ''KEY'' ''SECRET''
     \<lparr>server = [page [(''AAPL'', session_bars 0 [0..<78])] None], sent = []\<rparr> =
   Some (Inr [(''AAPL'', session_table ''AAPL'' 0 [0..<78])],
         \<lparr>server = [],
          sent = [page_request ''AAPL'' ''5Min'' ''1970-01-01'' ''1970-01-02'' 10000 ''KEY'' ''SECRET'' None]\<rparr>)"
proof -
  have a: "\<forall>b\<in>set (session_bars 0 [0..<78]).
             in_session est (row_of_bar b) \<and> local_date est (row_of_bar b) = 0"
    by (rule session_bars_in_session) simp
  have k: "keep_first [] (map row_of_bar (session_bars 0 [0..<78])) =
             map row_of_bar (session_bars 0 [0..<78])"
  proof (rule keep_first_id)
    show "distinct (map datetime (map row_of_bar (session_bars 0 [0..<78])))"
      by (rule session_bars_distinct) simp
  qed simp
  have len: "78 \<le> length (session_bars 0 [0..<78])"
    by (simp add: session_bars_def)
  have "clean_symbol est ''AAPL'' (session_bars 0 [0..<78]) = Inr (session_table ''AAPL'' 0 [0..<78])"
    using clean_symbol_one_day(1)[OF a len, of "''AAPL''"] unfolding k session_table_eq .
  then show ?thesis
    by (simp add: one_page_download)
qed

subsection \<open>The rows of a cleaned table\<close>

lemma clean_symbol_rows:
  assumes "clean_symbol e symbol barlist = Inr table" and "r \<in> set table"
  shows "\<exists>r0\<in>set (session_frame e barlist). r = tag_symbol symbol r0"
proof -
  from clean_symbol_Inr(2)[OF assms(1)] assms(2)
  obtain r0 where r: "r = tag_symbol symbol r0"
    and "r0 \<in> set (keep_first [] (concat (complete_days e (session_frame e barlist)
                 (np_unique (map (local_date e) (session_frame e barlist))))))"
    by auto
  then have "r0 \<in> set (session_frame e barlist)"
    using keep_first_subset complete_days_subset by blast
  with r show ?thesis by blast
qed

lemma clean_symbol_in_session:
  assumes "clean_symbol e symbol barlist = Inr table" and "r \<in> set table"
  shows "in_session e r" and "datetime r \<in> bar_t ` set barlist"
  using clean_symbol_rows[OF assms] by (auto simp: session_frame_def)

lemma clean_symbol_nonempty:
  "clean_symbol e symbol barlist \<noteq> Inr []"
proof
  assume a: "clean_symbol e symbol barlist = Inr []"
  let ?C = "complete_days e (session_frame e barlist)
              (np_unique (map (local_date e) (session_frame e barlist)))"
  from clean_symbol_Inr[OF a] have ne: "barlist \<noteq> []" and k: "keep_first [] (concat ?C) = []"
    by simp_all
  from a have c: "?C \<noteq> []"
    by (auto simp: clean_symbol_unfold[OF ne] pd_concat_def split: if_splits)
  have "[] \<notin> set (complete_days e F ds)" for F ds
    by (induction ds) auto
  then have "[] \<notin> set ?C" .
  with c have "concat ?C \<noteq> []"
    by (cases ?C) auto
  from keep_first_nonempty[OF this] k show False by simp
qed

lemma complete_days_filter:
  "complete_days e F ds =
     filter (\<lambda>temp_day_df. 78 \<le> length temp_day_df) (map (\<lambda>date. day_rows e date F) ds)"
  by (induction ds) auto

lemma in_session_time:
  "in_session e r \<longleftrightarrow>
     time_le (Time 9 30 0 0) (snd (e (datetime r))) \<and> time_le (snd (e (datetime r))) (Time 15 55 0 0)"
  by (simp add: in_session_def between_def local_time_def)

subsection \<open>The order of the rows\<close>

lemma complete_days_sorted_times:
  assumes "sorted ds" "distinct ds" "sorted (map datetime F)"
    and mono: "\<forall>t t'. t \<le> t' \<longrightarrow> fst (e t) \<le> fst (e t')"
  shows "sorted (map datetime (concat (complete_days e F ds)))"
  using assms(1,2)
proof (induction ds)
  case Nil
  then show ?case by simp
next
  case (Cons a ds)
  have cross: "datetime x \<le> datetime y"
    if "x \<in> set (day_rows e a F)" "y \<in> set (concat (complete_days e F ds))" for x y
  proof (rule ccontr)
    assume "\<not> datetime x \<le> datetime y"
    then have "datetime y \<le> datetime x" by simp
    with mono have "local_date e y \<le> local_date e x"
      by (simp add: local_date_def)
    moreover have "local_date e x = a" using that(1) by (rule day_rows_date)
    moreover have "local_date e y \<in> set ds" using that(2) by (rule complete_days_dates)
    ultimately show False using Cons.prems by auto
  qed
  have same: "sorted (map datetime (day_rows e a F))"
    unfolding day_rows_def using assms(3) by (rule sorted_filter)
  have rest: "sorted (map datetime (concat (complete_days e F ds)))"
    using Cons by simp
  show ?case
    using cross same rest by (auto simp: sorted_append)
qed

lemma map_datetime_row_of_bar: "map datetime (map row_of_bar bs) = map bar_t bs"
  by (simp add: comp_def)

lemma clean_symbol_sorted_dates:
  assumes "clean_symbol e symbol barlist = Inr table"
  shows "sorted (map (local_date e) table)"
proof -
  let ?C = "concat (complete_days e (session_frame e barlist)
              (np_unique (map (local_date e) (session_frame e barlist))))"
  have "sorted (map (local_date e) ?C)"
    by (rule complete_days_sorted_dates) (simp add: np_unique_props)
  then have "sorted_wrt (\<lambda>x y. local_date e x \<le> local_date e y) (keep_first [] ?C)"
    unfolding sorted_map by (rule keep_first_sorted_wrt)
  then show ?thesis
    unfolding clean_symbol_Inr(2)[OF assms] by (simp add: sorted_map sorted_wrt_map)
qed

lemma clean_symbol_distinct:
  assumes "clean_symbol e symbol barlist = Inr table"
  shows "distinct (map datetime table)"
  unfolding clean_symbol_Inr(2)[OF assms]
  using keep_first_distinct[of "[]"] by (simp add: comp_def)

lemma clean_symbol_sorted_times:
  assumes "clean_symbol e symbol barlist = Inr table"
    and "sorted (map bar_t barlist)"
    and mono: "\<forall>t t'. t \<le> t' \<longrightarrow> fst (e t) \<le> fst (e t')"
  shows "sorted_wrt (<) (map datetime table)"
proof -
  let ?F = "session_frame e barlist"
  let ?C = "concat (complete_days e ?F (np_unique (map (local_date e) ?F)))"
  have "sorted (map datetime (map row_of_bar barlist))"
    unfolding map_datetime_row_of_bar by (rule assms(2))
  then have "sorted (map datetime ?F)"
    unfolding session_frame_def by (rule sorted_filter)
  then have "sorted (map datetime ?C)"
    using mono by (intro complete_days_sorted_times) (simp_all add: np_unique_props)
  then have "sorted_wrt (\<lambda>x y. datetime x \<le> datetime y) (keep_first [] ?C)"
    unfolding sorted_map by (rule keep_first_sorted_wrt)
  then have "sorted (map datetime table)"
    unfolding clean_symbol_Inr(2)[OF assms(1)] by (simp add: sorted_map sorted_wrt_map)
  with clean_symbol_distinct[OF assms(1)] show ?thesis
    by (simp add: strict_sorted_iff)
qed

lemma clean_symbol_subseq:
  assumes "clean_symbol e symbol barlist = Inr table"
  shows "subseq (map datetime (day_rows e d table)) (map bar_t barlist)"
proof -
  let ?F = "session_frame e barlist"
  have "subseq (keep_first [] (day_rows e d ?F)) (day_rows e d ?F)"
    by (rule keep_first_subseq)
  also have "subseq (day_rows e d ?F) ?F"
    by (simp add: day_rows_def)
  also have "subseq ?F (map row_of_bar barlist)"
    by (simp add: session_frame_def)
  finally have "subseq (map datetime (keep_first [] (day_rows e d ?F)))
                  (map datetime (map row_of_bar barlist))"
    by (rule subseq_map)
  then have "subseq (map datetime (keep_first [] (day_rows e d ?F))) (map bar_t barlist)"
    unfolding map_datetime_row_of_bar .
  then show ?thesis
    unfolding clean_symbol_day_rows[OF assms] by (simp add: comp_def)
qed

lemma day_rows_all: "\<forall>r\<in>set rows. local_date e r = d \<Longrightarrow> day_rows e d rows = rows"
  by (simp add: day_rows_def)

lemma est_date_mono: "\<forall>t t'. t \<le> t' \<longrightarrow> fst (est t) \<le> fst (est t')"
  by (simp add: est_def Let_def zdiv_mono1)

lemma session_bars_sorted: "sorted (map bar_t (session_bars d [0..<n]))"
  by (simp add: session_bars_def bar_at_def bar_time_def comp_def sorted_map
      sorted_wrt_iff_nth_less)

subsection \<open>Runs of the script\<close>

lemma full_session_download_any:
  "download_intraday scripted est symbols timeframe start end 10000 api_key secret_key
     \<lparr>server = [page [(symbol, session_bars 0 [0..<78])] None], sent = []\<rparr> =
   Some (Inr [(symbol, session_table symbol 0 [0..<78])],
         \<lparr>server = [],
          sent = [page_request symbols timeframe start end 10000 api_key secret_key None]\<rparr>)"
proof -
  have a: "\<forall>b\<in>set (session_bars 0 [0..<78]).
             in_session est (row_of_bar b) \<and> local_date est (row_of_bar b) = 0"
    by (rule session_bars_in_session) simp
  have k: "keep_first [] (map row_of_bar (session_bars 0 [0..<78])) =
             map row_of_bar (session_bars 0 [0..<78])"
  proof (rule keep_first_id)
    show "distinct (map datetime (map row_of_bar (session_bars 0 [0..<78])))"
      by (rule session_bars_distinct) simp
  qed simp
  have len: "78 \<le> length (session_bars 0 [0..<78])"
    by (simp add: session_bars_def)
  have "clean_symbol est symbol (session_bars 0 [0..<78]) = Inr (session_table symbol 0 [0..<78])"
    using clean_symbol_one_day(1)[OF a len, of symbol] unfolding k session_table_eq .
  then show ?thesis
    by (simp add: one_page_download)
qed

lemma main_downloads:
  assumes "check_args argv = None" "py_int (argv ! 5) = Some limit"
    and "to_date (argv ! 3) \<noteq> None" "to_date (argv ! 4) \<noteq> None"
    and "download_intraday net eastern (argv ! 1) (argv ! 2) (argv ! 3) (argv ! 4) limit
           (argv ! 6) (argv ! 7) w = Some (Inr df_dict, w1)"
  shows "main net eastern py_int to_date argv w =
           Some (if stack_requested argv
                 then (case stack_data df_dict of
                         Inl e \<Rightarrow> Raised e
                       | Inr stack_df \<Rightarrow> Finished df_dict (Some stack_df))
                 else Finished df_dict None, w1)"
  using assms by (auto simp: main_def split: sum.splits)

lemma session_table_times:
  "map datetime (session_table symbol d slots) = map bar_t (session_bars d slots)"
  by (simp add: session_table_def session_bars_def comp_def bar_at_def row_of_bar_def)

section \<open>The fetcher's claims\<close>

text \<open>
  C1 (the code departs from the claim). The claim: after any run of 429 responses,
  \<^verbatim>\<open>safe_get\<close> sleeps, retries and returns the first response that is not a 429. The code:
  the server answers 429, with the reset header, and then 200; \<^verbatim>\<open>safe_get\<close> issues one
  request and raises \<^verbatim>\<open>AttributeError\<close> at line 27, because \<^verbatim>\<open>time\<close> is the class
  \<^verbatim>\<open>datetime.time\<close>. The second response is never asked for.
\<close>

theorem safe_get_429_raises:
  "safe_get scripted (page_request ''AAPL'' ''5Min'' ''1970-01-01'' ''1970-01-02'' 10000 ''KEY'' ''SECRET'' None)
     \<lparr>server = [too_many, page [] None], sent = []\<rparr> =
   Some (Inl (AttributeError ''time''),
         \<lparr>server = [page [] None],
          sent = [page_request ''AAPL'' ''5Min'' ''1970-01-01'' ''1970-01-02'' 10000 ''KEY'' ''SECRET'' None]\<rparr>)"
  by (simp add: safe_get_eq requests_get_scripted too_many_def)

text \<open>
  C5. The server answers the successive requests with the responses \<open>pages\<close>, none of
  them a 429, each with a JSON body; every page but the last carries a continuation token
  and the last carries none. Then \<^verbatim>\<open>download_intraday_dict\<close> returns the pages merged in
  order, starting from the empty dict; it has issued as many requests as there are pages,
  the first without a page token and each later one with the token of the page before;
  and for every symbol the bars of the result are the bars of page 1, then those of page
  2, and so on. A token that is the empty string counts as no token (line 98 tests its
  truth value).
\<close>

theorem pagination_scripted:
  assumes "limit \<le> 10000" and "pages \<noteq> []" and "\<forall>r\<in>set pages. is_page r"
    and "\<forall>r\<in>set (butlast pages). truthy (response_token r)"
    and "\<not> truthy (response_token (last pages))"
  shows "download_intraday_dict scripted symbols timeframe start end limit api_key secret_key True
           \<lparr>server = pages @ rest, sent = []\<rparr> =
         Some (Inr (foldl merge_page [] (map response_bars pages)),
               \<lparr>server = rest,
                sent = map (page_request symbols timeframe start end limit api_key secret_key)
                         (None # map response_token (butlast pages))\<rparr>)
       \<and> length (map (page_request symbols timeframe start end limit api_key secret_key)
                    (None # map response_token (butlast pages))) = length pages
       \<and> (\<forall>symbol. bars_of symbol (foldl merge_page [] (map response_bars pages)) =
                     concat (map (\<lambda>r. bars_of symbol (response_bars r)) pages))"
proof -
  have run: "download_intraday_dict scripted symbols timeframe start end limit api_key secret_key True
           \<lparr>server = pages @ rest, sent = []\<rparr> =
         Some (Inr (foldl merge_page [] (map response_bars pages)),
               \<lparr>server = rest,
                sent = map (page_request symbols timeframe start end limit api_key secret_key)
                         (None # map response_token (butlast pages))\<rparr>)"
    using assms(1) fetch_pages_scripted[OF assms(2-5), where issued="[]"]
    by (simp add: download_intraday_dict_def)
  have len: "length (map (page_request symbols timeframe start end limit api_key secret_key)
                    (None # map response_token (butlast pages))) = length pages"
    using assms(2) by simp
  have merged: "bars_of symbol (foldl merge_page [] (map response_bars pages)) =
                     concat (map (\<lambda>r. bars_of symbol (response_bars r)) pages)" for symbol
    using foldl_merge_page[where acc="[]" and s=symbol and pgs="map response_bars pages"]
    by (simp add: comp_def)
  from run len merged show ?thesis by blast
qed

text \<open>
  The scenario of the claim: page 1 carries a token, page 2 does not; two requests are
  issued and the bars of both pages are merged per symbol.
\<close>

theorem pagination_two_pages:
  "download_intraday_dict scripted ''AAPL,TSLA'' ''5Min'' ''1970-01-01'' ''1970-01-02'' 10000 ''KEY'' ''SECRET'' True
     \<lparr>server = [page [(''AAPL'', [bar_at 0])] (Some ''p2''),
                page [(''TSLA'', [bar_at 0]), (''AAPL'', [bar_at 300])] None],
      sent = []\<rparr> =
   Some (Inr [(''AAPL'', [bar_at 0, bar_at 300]), (''TSLA'', [bar_at 0])],
         \<lparr>server = [],
          sent = [page_request ''AAPL,TSLA'' ''5Min'' ''1970-01-01'' ''1970-01-02'' 10000 ''KEY'' ''SECRET'' None,
                  page_request ''AAPL,TSLA'' ''5Min'' ''1970-01-01'' ''1970-01-02'' 10000 ''KEY'' ''SECRET'' (Some ''p2'')]\<rparr>)"
  using pagination_scripted[of 10000
      "[page [(''AAPL'', [bar_at 0])] (Some ''p2''),
        page [(''TSLA'', [bar_at 0]), (''AAPL'', [bar_at 300])] None]"
      "''AAPL,TSLA''" "''5Min''" "''1970-01-01''" "''1970-01-02''" "''KEY''" "''SECRET''" "[]"]
  by (simp add: is_page_def response_token_def response_bars_def page_def page_bars_def)

text \<open>
  C6. A limit above 10000 makes \<^verbatim>\<open>download_intraday_dict\<close> raise \<^verbatim>\<open>ValueError\<close> with the
  world unchanged: no request is issued. With a limit of at most 10000 the call is the
  pagination loop from the empty accumulator (for \<^verbatim>\<open>stocks=True\<close>, the default and the only
  value the cleaner passes); whatever it returns is not a \<^verbatim>\<open>ValueError\<close>, and when it
  returns, the first request, the one without a page token, has been issued.
\<close>

theorem limit_check:
  "(limit > 10000 \<longrightarrow>
      download_intraday_dict net symbols timeframe start end limit api_key secret_key stocks w =
        Some (Inl (ValueError ''limit must be <= 10000 (Alpaca API restriction)''), w))
   \<and> (limit \<le> 10000 \<longrightarrow>
        download_intraday_dict net symbols timeframe start end limit api_key secret_key True w =
          fetch_pages net (page_request symbols timeframe start end limit api_key secret_key) None [] w
        \<and> (\<forall>res w'.
              download_intraday_dict net symbols timeframe start end limit api_key secret_key stocks w =
                Some (res, w') \<longrightarrow> (\<forall>m. res \<noteq> Inl (ValueError m)))
        \<and> (\<forall>res w'.
              download_intraday_dict net symbols timeframe start end limit api_key secret_key True w =
                Some (res, w') \<longrightarrow>
              prefix (sent w @ [page_request symbols timeframe start end limit api_key secret_key None])
                (sent w')))"
proof (intro conjI impI allI)
  assume "limit > 10000"
  then show "download_intraday_dict net symbols timeframe start end limit api_key secret_key stocks w =
        Some (Inl (ValueError ''limit must be <= 10000 (Alpaca API restriction)''), w)"
    by (simp add: download_intraday_dict_def)
next
  assume "limit \<le> 10000"
  then show "download_intraday_dict net symbols timeframe start end limit api_key secret_key True w =
          fetch_pages net (page_request symbols timeframe start end limit api_key secret_key) None [] w"
    by (simp add: download_intraday_dict_def)
next
  fix res w' m
  assume l: "limit \<le> 10000"
    and r: "download_intraday_dict net symbols timeframe start end limit api_key secret_key stocks w =
                Some (res, w')"
  show "res \<noteq> Inl (ValueError m)"
  proof (cases stocks)
    case True
    with l r have "fetch_pages net (page_request symbols timeframe start end limit api_key secret_key)
                     None [] w = Some (res, w')"
      by (simp add: download_intraday_dict_def)
    from fetch_pages_sent[OF this] show ?thesis by simp
  next
    case False
    with l r show ?thesis by (auto simp: download_intraday_dict_def)
  qed
next
  fix res w'
  assume l: "limit \<le> 10000"
    and r: "download_intraday_dict net symbols timeframe start end limit api_key secret_key True w =
                Some (res, w')"
  then have "fetch_pages net (page_request symbols timeframe start end limit api_key secret_key)
                     None [] w = Some (res, w')"
    by (simp add: download_intraday_dict_def)
  from fetch_pages_sent[OF this]
  show "prefix (sent w @ [page_request symbols timeframe start end limit api_key secret_key None])
                (sent w')"
    by simp
qed

theorem limit_check_witness:
  "download_intraday_dict scripted ''AAPL'' ''5Min'' ''1970-01-01'' ''1970-01-02'' 10001 ''KEY'' ''SECRET'' True
     \<lparr>server = [page [] None], sent = []\<rparr> =
     Some (Inl (ValueError ''limit must be <= 10000 (Alpaca API restriction)''),
           \<lparr>server = [page [] None], sent = []\<rparr>)
   \<and> download_intraday_dict scripted ''AAPL'' ''5Min'' ''1970-01-01'' ''1970-01-02'' 10000 ''KEY'' ''SECRET'' True
     \<lparr>server = [page [] None], sent = []\<rparr> =
     Some (Inr [],
           \<lparr>server = [],
            sent = [page_request ''AAPL'' ''5Min'' ''1970-01-01'' ''1970-01-02'' 10000 ''KEY'' ''SECRET'' None]\<rparr>)
   \<and> prefix ([] @ [page_request ''AAPL'' ''5Min'' ''1970-01-01'' ''1970-01-02'' 10000 ''KEY'' ''SECRET'' None])
        (sent \<lparr>server = ([] :: response list),
          sent = [page_request ''AAPL'' ''5Min'' ''1970-01-01'' ''1970-01-02'' 10000 ''KEY'' ''SECRET'' None]\<rparr>)"
  using limit_check[of 10001 scripted "''AAPL''" "''5Min''" "''1970-01-01''" "''1970-01-02''"
      "''KEY''" "''SECRET''" True "\<lparr>server = [page [] None], sent = []\<rparr>"]
    limit_check[of 10000 scripted "''AAPL''" "''5Min''" "''1970-01-01''" "''1970-01-02''"
      "''KEY''" "''SECRET''" True "\<lparr>server = [page [] None], sent = []\<rparr>"]
    one_page_dict[of 10000 "''AAPL''" "''5Min''" "''1970-01-01''" "''1970-01-02''"
      "''KEY''" "''SECRET''" "[]"]
  by simp

section \<open>The cleaner's claims\<close>

text \<open>
  C2 (amended). The claim gives the window as half-open, with every row strictly before
  15:55. Line 138 uses \<^verbatim>\<open>between\<close>, which keeps both bounds, and the bar of 15:55 is the
  78th bar that the completeness test of line 155 counts on. What holds: for every row of
  every table that \<^verbatim>\<open>download_intraday\<close> returns, the US/Eastern wall-clock time is at or
  after 09:30 and at or before 15:55; and no row of the table carries the timestamp of a
  fetched bar of that symbol whose wall-clock time is outside that closed interval.
\<close>

theorem session_window_closed:
  assumes "download_intraday net eastern symbols timeframe start end limit api_key secret_key w =
             Some (Inr df_dict, w')"
    and "(symbol, table) \<in> set df_dict"
  shows "(\<forall>r\<in>set table.
            time_le (Time 9 30 0 0) (local_time eastern r) \<and>
            time_le (local_time eastern r) (Time 15 55 0 0))
       \<and> (\<exists>symbol_bars barlist.
            download_intraday_dict net symbols timeframe start end limit api_key secret_key True w =
              Some (Inr symbol_bars, w')
            \<and> (symbol, barlist) \<in> set symbol_bars
            \<and> (\<forall>b\<in>set barlist.
                  \<not> (time_le (Time 9 30 0 0) (snd (eastern (bar_t b))) \<and>
                     time_le (snd (eastern (bar_t b))) (Time 15 55 0 0)) \<longrightarrow>
                  (\<forall>r\<in>set table. datetime r \<noteq> bar_t b)))"
proof -
  from download_intraday_tables[OF assms] obtain symbol_bars barlist where
    d: "download_intraday_dict net symbols timeframe start end limit api_key secret_key True w =
          Some (Inr symbol_bars, w')"
    and m: "(symbol, barlist) \<in> set symbol_bars"
    and c: "clean_symbol eastern symbol barlist = Inr table"
    by blast
  have inside: "time_le (Time 9 30 0 0) (snd (eastern (datetime r))) \<and>
                time_le (snd (eastern (datetime r))) (Time 15 55 0 0)"
    if "r \<in> set table" for r
    using clean_symbol_in_session(1)[OF c that] by (simp add: in_session_time)
  have "\<forall>r\<in>set table.
            time_le (Time 9 30 0 0) (local_time eastern r) \<and>
            time_le (local_time eastern r) (Time 15 55 0 0)"
    using inside by (simp add: local_time_def)
  moreover have "\<forall>b\<in>set barlist.
                  \<not> (time_le (Time 9 30 0 0) (snd (eastern (bar_t b))) \<and>
                     time_le (snd (eastern (bar_t b))) (Time 15 55 0 0)) \<longrightarrow>
                  (\<forall>r\<in>set table. datetime r \<noteq> bar_t b)"
    using inside by metis
  ultimately show ?thesis using d m by blast
qed

text \<open>
  A full session of 78 five-minute bars, 09:30 to 15:55, on one date: the hypotheses hold
  and the row of 15:55 is within the closed bounds.
\<close>

theorem session_window_closed_witness:
  "download_intraday scripted est ''AAPL'' ''5Min'' ''1970-01-01'' ''1970-01-02'' 10000 ''KEY'' ''SECRET''
     \<lparr>server = [page [(''AAPL'', session_bars 0 [0..<78])] None], sent = []\<rparr> =
   Some (Inr [(''AAPL'', session_table ''AAPL'' 0 [0..<78])],
         \<lparr>server = [],
          sent = [page_request ''AAPL'' ''5Min'' ''1970-01-01'' ''1970-01-02'' 10000 ''KEY'' ''SECRET'' None]\<rparr>)
   \<and> tag_symbol ''AAPL'' (row_of_bar (bar_at (bar_time 0 77))) \<in> set (session_table ''AAPL'' 0 [0..<78])
   \<and> time_le (Time 9 30 0 0) (local_time est (tag_symbol ''AAPL'' (row_of_bar (bar_at (bar_time 0 77)))))
   \<and> time_le (local_time est (tag_symbol ''AAPL'' (row_of_bar (bar_at (bar_time 0 77))))) (Time 15 55 0 0)"
proof -
  have mem: "tag_symbol ''AAPL'' (row_of_bar (bar_at (bar_time 0 77))) \<in> set (session_table ''AAPL'' 0 [0..<78])"
    by (simp add: session_table_def)
  have "(''AAPL'', session_table ''AAPL'' 0 [0..<78]) \<in> set [(''AAPL'', session_table ''AAPL'' 0 [0..<78])]"
    by simp
  from session_window_closed[OF full_session_download this] mem
  have "time_le (Time 9 30 0 0) (local_time est (tag_symbol ''AAPL'' (row_of_bar (bar_at (bar_time 0 77)))))
      \<and> time_le (local_time est (tag_symbol ''AAPL'' (row_of_bar (bar_at (bar_time 0 77))))) (Time 15 55 0 0)"
    by blast
  with full_session_download mem show ?thesis by blast
qed

text \<open>
  The claim as stated fails on the same input: the table that is returned holds the row
  of 15:55, and 15:55 is not strictly before 15:55.
\<close>

theorem last_bar_not_before_1555:
  "download_intraday scripted est ''AAPL'' ''5Min'' ''1970-01-01'' ''1970-01-02'' 10000 ''KEY'' ''SECRET''
     \<lparr>server = [page [(''AAPL'', session_bars 0 [0..<78])] None], sent = []\<rparr> =
   Some (Inr [(''AAPL'', session_table ''AAPL'' 0 [0..<78])],
         \<lparr>server = [],
          sent = [page_request ''AAPL'' ''5Min'' ''1970-01-01'' ''1970-01-02'' 10000 ''KEY'' ''SECRET'' None]\<rparr>)
   \<and> tag_symbol ''AAPL'' (row_of_bar (bar_at (bar_time 0 77))) \<in> set (session_table ''AAPL'' 0 [0..<78])
   \<and> local_time est (tag_symbol ''AAPL'' (row_of_bar (bar_at (bar_time 0 77)))) = Time 15 55 0 0
   \<and> \<not> time_lt (local_time est (tag_symbol ''AAPL'' (row_of_bar (bar_at (bar_time 0 77))))) (Time 15 55 0 0)"
proof -
  have mem: "tag_symbol ''AAPL'' (row_of_bar (bar_at (bar_time 0 77))) \<in> set (session_table ''AAPL'' 0 [0..<78])"
    by (simp add: session_table_def)
  have t: "local_time est (tag_symbol ''AAPL'' (row_of_bar (bar_at (bar_time 0 77)))) = Time 15 55 0 0"
    by (simp add: local_time_def bar_at_def est_last_bar)
  have "\<not> time_lt (local_time est (tag_symbol ''AAPL'' (row_of_bar (bar_at (bar_time 0 77))))) (Time 15 55 0 0)"
    unfolding t by simp
  with full_session_download mem t show ?thesis by blast
qed

text \<open>
  C4. For every table that \<^verbatim>\<open>download_intraday\<close> returns for a symbol, with \<open>barlist\<close> the
  bars fetched for that symbol: the list of day groups that the loop of lines 152 to 163
  keeps is the list of all day groups of the session-filtered frame, in the order of the
  dates, restricted to the groups of at least 78 rows; a date occurs in the table if and
  only if the session-filtered frame has at least 78 rows of that date; and a date with
  fewer than 78 rows there has no row in the table.
\<close>

theorem complete_dates_only:
  assumes "download_intraday net eastern symbols timeframe start end limit api_key secret_key w =
             Some (Inr df_dict, w')"
    and "(symbol, table) \<in> set df_dict"
  shows "\<exists>symbol_bars barlist.
           download_intraday_dict net symbols timeframe start end limit api_key secret_key True w =
             Some (Inr symbol_bars, w')
         \<and> (symbol, barlist) \<in> set symbol_bars
         \<and> complete_days eastern (session_frame eastern barlist)
             (np_unique (map (local_date eastern) (session_frame eastern barlist))) =
           filter (\<lambda>temp_day_df. 78 \<le> length temp_day_df)
             (map (\<lambda>date. day_rows eastern date (session_frame eastern barlist))
                (np_unique (map (local_date eastern) (session_frame eastern barlist))))
         \<and> (\<forall>date. (\<exists>r\<in>set table. local_date eastern r = date) \<longleftrightarrow>
                     78 \<le> length (day_rows eastern date (session_frame eastern barlist)))
         \<and> (\<forall>date. length (day_rows eastern date (session_frame eastern barlist)) < 78 \<longrightarrow>
                     day_rows eastern date table = [])"
proof -
  from download_intraday_tables[OF assms] obtain symbol_bars barlist where
    d: "download_intraday_dict net symbols timeframe start end limit api_key secret_key True w =
          Some (Inr symbol_bars, w')"
    and m: "(symbol, barlist) \<in> set symbol_bars"
    and c: "clean_symbol eastern symbol barlist = Inr table"
    by blast
  let ?F = "session_frame eastern barlist"
  note dr = clean_symbol_day_rows[OF c]
  have present: "(\<exists>r\<in>set table. local_date eastern r = date) \<longleftrightarrow> day_rows eastern date table \<noteq> []"
    for date
    by (auto simp: day_rows_def filter_empty_conv)
  have iff: "(\<exists>r\<in>set table. local_date eastern r = date) \<longleftrightarrow> 78 \<le> length (day_rows eastern date ?F)"
    for date
  proof (cases "78 \<le> length (day_rows eastern date ?F)")
    case True
    then have "day_rows eastern date ?F \<noteq> []" by auto
    from keep_first_nonempty[OF this] True show ?thesis
      unfolding present dr by simp
  next
    case False
    then show ?thesis unfolding present dr by simp
  qed
  have dropped: "length (day_rows eastern date ?F) < 78 \<longrightarrow> day_rows eastern date table = []"
    for date
    unfolding dr by simp
  from d m complete_days_filter iff dropped show ?thesis by blast
qed

theorem complete_dates_only_witness:
  "download_intraday scripted est ''AAPL'' ''5Min'' ''1970-01-01'' ''1970-01-02'' 10000 ''KEY'' ''SECRET''
     \<lparr>server = [page [(''AAPL'', session_bars 0 [0..<78])] None], sent = []\<rparr> =
   Some (Inr [(''AAPL'', session_table ''AAPL'' 0 [0..<78])],
         \<lparr>server = [],
          sent = [page_request ''AAPL'' ''5Min'' ''1970-01-01'' ''1970-01-02'' 10000 ''KEY'' ''SECRET'' None]\<rparr>)
   \<and> local_date est (tag_symbol ''AAPL'' (row_of_bar (bar_at (bar_time 0 77)))) = 0
   \<and> 78 \<le> length (day_rows est 0 (session_frame est (session_bars 0 [0..<78])))"
proof -
  have mem: "tag_symbol ''AAPL'' (row_of_bar (bar_at (bar_time 0 77))) \<in> set (session_table ''AAPL'' 0 [0..<78])"
    by (simp add: session_table_def)
  have date: "local_date est (tag_symbol ''AAPL'' (row_of_bar (bar_at (bar_time 0 77)))) = 0"
    by (simp add: local_date_def bar_at_def est_last_bar)
  have "(''AAPL'', session_table ''AAPL'' 0 [0..<78]) \<in> set [(''AAPL'', session_table ''AAPL'' 0 [0..<78])]"
    by simp
  from complete_dates_only[OF full_session_download this]
  obtain symbol_bars barlist where
    "download_intraday_dict scripted ''AAPL'' ''5Min'' ''1970-01-01'' ''1970-01-02'' 10000 ''KEY'' ''SECRET'' True
       \<lparr>server = [page [(''AAPL'', session_bars 0 [0..<78])] None], sent = []\<rparr> =
     Some (Inr symbol_bars,
       \<lparr>server = [],
        sent = [page_request ''AAPL'' ''5Min'' ''1970-01-01'' ''1970-01-02'' 10000 ''KEY'' ''SECRET'' None]\<rparr>)"
    and "(''AAPL'', barlist) \<in> set symbol_bars"
    and iff: "\<forall>date. (\<exists>r\<in>set (session_table ''AAPL'' 0 [0..<78]). local_date est r = date) \<longleftrightarrow>
                     78 \<le> length (day_rows est date (session_frame est barlist))"
    by blast
  then have "barlist = session_bars 0 [0..<78]"
    by (auto simp: one_page_dict)
  with iff mem date have "78 \<le> length (day_rows est 0 (session_frame est (session_bars 0 [0..<78])))"
    by blast
  with full_session_download date show ?thesis by blast
qed

text \<open>
  C7. When the frame of line 131 has columns (the bar list is not empty) and the loop of
  lines 152 to 163 keeps no day group, the cleaning of the symbol ends at line 168 with
  \<^verbatim>\<open>ValueError\<close>, the error of \<^verbatim>\<open>pd.concat\<close> on an empty list. The cleaning of a symbol
  never returns an empty table, whatever the bars. And when the cleaning of one fetched
  symbol raises, \<^verbatim>\<open>download_intraday\<close> as a whole raises. (For an empty bar list the step
  of line 168 is not reached: line 137 raises \<^verbatim>\<open>KeyError\<close>.)
\<close>

theorem empty_concat_raises:
  "(to_frame barlist = Inr frame \<and>
    complete_days eastern (filter (in_session eastern) frame)
      (np_unique (map (local_date eastern) (filter (in_session eastern) frame))) = [] \<longrightarrow>
    clean_symbol eastern symbol barlist = Inl (ValueError ''No objects to concatenate''))
   \<and> clean_symbol eastern symbol barlist \<noteq> Inr []
   \<and> (download_intraday_dict net symbols timeframe start end limit api_key secret_key True w =
        Some (Inr symbol_bars, w') \<and>
      (symbol, barlist) \<in> set symbol_bars \<and>
      clean_symbol eastern symbol barlist = Inl err \<longrightarrow>
      (\<exists>err'. download_intraday net eastern symbols timeframe start end limit api_key secret_key w =
                Some (Inl err', w')))"
proof (intro conjI impI)
  assume "to_frame barlist = Inr frame \<and>
    complete_days eastern (filter (in_session eastern) frame)
      (np_unique (map (local_date eastern) (filter (in_session eastern) frame))) = []"
  then show "clean_symbol eastern symbol barlist = Inl (ValueError ''No objects to concatenate'')"
    by (simp add: clean_symbol_def pd_concat_def Let_def)
next
  show "clean_symbol eastern symbol barlist \<noteq> Inr []"
    by (rule clean_symbol_nonempty)
next
  assume a: "download_intraday_dict net symbols timeframe start end limit api_key secret_key True w =
        Some (Inr symbol_bars, w') \<and>
      (symbol, barlist) \<in> set symbol_bars \<and>
      clean_symbol eastern symbol barlist = Inl err"
  then obtain err' where "clean_all eastern symbol_bars [] = Inl err'"
    using clean_all_fails by blast
  with a show "\<exists>err'. download_intraday net eastern symbols timeframe start end limit api_key secret_key w =
                Some (Inl err', w')"
    by (simp add: download_intraday_def)
qed

text \<open>77 bars of one session: the frame has columns, no date is complete.\<close>

theorem empty_concat_raises_witness:
  "to_frame (session_bars 0 [0..<77]) = Inr (map row_of_bar (session_bars 0 [0..<77]))
   \<and> complete_days est (filter (in_session est) (map row_of_bar (session_bars 0 [0..<77])))
       (np_unique (map (local_date est)
          (filter (in_session est) (map row_of_bar (session_bars 0 [0..<77]))))) = []
   \<and> clean_symbol est ''AAPL'' (session_bars 0 [0..<77]) = Inl (ValueError ''No objects to concatenate'')"
proof -
  have a: "\<forall>b\<in>set (session_bars 0 [0..<77]).
             in_session est (row_of_bar b) \<and> local_date est (row_of_bar b) = 0"
    by (rule session_bars_in_session) simp
  have ne: "session_bars 0 [0..<77] \<noteq> []"
    by (simp add: session_bars_def)
  have f: "to_frame (session_bars 0 [0..<77]) = Inr (map row_of_bar (session_bars 0 [0..<77]))"
    using ne by (simp add: to_frame_def)
  note fr = one_day_frame[OF ne a]
  have "complete_days est (session_frame est (session_bars 0 [0..<77]))
          (np_unique (map (local_date est) (session_frame est (session_bars 0 [0..<77])))) = []"
    unfolding fr(2) by (simp add: fr(3)) (simp add: session_bars_def)
  then have c: "complete_days est (filter (in_session est) (map row_of_bar (session_bars 0 [0..<77])))
       (np_unique (map (local_date est)
          (filter (in_session est) (map row_of_bar (session_bars 0 [0..<77]))))) = []"
    unfolding session_frame_def .
  from empty_concat_raises[of "session_bars 0 [0..<77]" "map row_of_bar (session_bars 0 [0..<77])"
      est "''AAPL''"] f c
  have "clean_symbol est ''AAPL'' (session_bars 0 [0..<77]) = Inl (ValueError ''No objects to concatenate'')"
    by blast
  with f c show ?thesis by blast
qed

text \<open>
  C3 (amended). The claim promises, for every raw input, strictly increasing timestamps
  and at least 78 rows for every date of the table. The cleaner never sorts, and it
  counts the rows of a date (line 155) before it removes duplicates (line 173). What
  holds, for every table that \<^verbatim>\<open>download_intraday\<close> returns for a symbol, with \<open>barlist\<close> the
  bars fetched for that symbol: the timestamps are unique; every row lies in the session
  window, 09:30 to 15:55 with both bounds; the calendar dates of the rows ascend along the
  table; every date of the table had at least 78 rows in the session-filtered frame, that
  is before duplicates were removed; and the timestamps are strictly increasing when the
  fetched bars are in ascending order of time (the order the request asks the vendor for)
  and the zone's calendar date does not go back as time advances.
\<close>

theorem cleaned_table_invariant:
  assumes "download_intraday net eastern symbols timeframe start end limit api_key secret_key w =
             Some (Inr df_dict, w')"
    and "(symbol, table) \<in> set df_dict"
  shows "distinct (map datetime table)
       \<and> (\<forall>r\<in>set table. in_session eastern r)
       \<and> sorted (map (local_date eastern) table)
       \<and> (\<exists>symbol_bars barlist.
            download_intraday_dict net symbols timeframe start end limit api_key secret_key True w =
              Some (Inr symbol_bars, w')
            \<and> (symbol, barlist) \<in> set symbol_bars
            \<and> (\<forall>r\<in>set table.
                  78 \<le> length (day_rows eastern (local_date eastern r)
                                 (session_frame eastern barlist)))
            \<and> (sorted (map bar_t barlist) \<and>
                (\<forall>t t'. t \<le> t' \<longrightarrow> fst (eastern t) \<le> fst (eastern t')) \<longrightarrow>
                sorted_wrt (<) (map datetime table)))"
proof -
  from download_intraday_tables[OF assms] obtain symbol_bars barlist where
    d: "download_intraday_dict net symbols timeframe start end limit api_key secret_key True w =
          Some (Inr symbol_bars, w')"
    and m: "(symbol, barlist) \<in> set symbol_bars"
    and c: "clean_symbol eastern symbol barlist = Inr table"
    by blast
  have cover: "78 \<le> length (day_rows eastern (local_date eastern r) (session_frame eastern barlist))"
    if "r \<in> set table" for r
  proof (rule ccontr)
    assume "\<not> ?thesis"
    then have "day_rows eastern (local_date eastern r) table = []"
      unfolding clean_symbol_day_rows[OF c] by simp
    with that show False by (auto simp: day_rows_def filter_empty_conv)
  qed
  have sorted_times: "sorted (map bar_t barlist) \<and>
        (\<forall>t t'. t \<le> t' \<longrightarrow> fst (eastern t) \<le> fst (eastern t')) \<longrightarrow>
        sorted_wrt (<) (map datetime table)"
    using clean_symbol_sorted_times[OF c] by blast
  have window: "\<forall>r\<in>set table. in_session eastern r"
    using clean_symbol_in_session(1)[OF c] by blast
  from clean_symbol_distinct[OF c] window clean_symbol_sorted_dates[OF c] d m cover sorted_times
  show ?thesis by blast
qed

text \<open>A full session in ascending order: the table is strictly increasing.\<close>

theorem cleaned_table_invariant_witness:
  "download_intraday scripted est ''AAPL'' ''5Min'' ''1970-01-01'' ''1970-01-02'' 10000 ''KEY'' ''SECRET''
     \<lparr>server = [page [(''AAPL'', session_bars 0 [0..<78])] None], sent = []\<rparr> =
   Some (Inr [(''AAPL'', session_table ''AAPL'' 0 [0..<78])],
         \<lparr>server = [],
          sent = [page_request ''AAPL'' ''5Min'' ''1970-01-01'' ''1970-01-02'' 10000 ''KEY'' ''SECRET'' None]\<rparr>)
   \<and> sorted (map bar_t (session_bars 0 [0..<78]))
   \<and> distinct (map datetime (session_table ''AAPL'' 0 [0..<78]))
   \<and> sorted_wrt (<) (map datetime (session_table ''AAPL'' 0 [0..<78]))"
proof -
  have "(''AAPL'', session_table ''AAPL'' 0 [0..<78]) \<in> set [(''AAPL'', session_table ''AAPL'' 0 [0..<78])]"
    by simp
  from cleaned_table_invariant[OF full_session_download this]
  obtain symbol_bars barlist where
    dist: "distinct (map datetime (session_table ''AAPL'' 0 [0..<78]))"
    and "download_intraday_dict scripted ''AAPL'' ''5Min'' ''1970-01-01'' ''1970-01-02'' 10000 ''KEY'' ''SECRET'' True
       \<lparr>server = [page [(''AAPL'', session_bars 0 [0..<78])] None], sent = []\<rparr> =
     Some (Inr symbol_bars,
       \<lparr>server = [],
        sent = [page_request ''AAPL'' ''5Min'' ''1970-01-01'' ''1970-01-02'' 10000 ''KEY'' ''SECRET'' None]\<rparr>)"
    and "(''AAPL'', barlist) \<in> set symbol_bars"
    and imp: "sorted (map bar_t barlist) \<and> (\<forall>t t'. t \<le> t' \<longrightarrow> fst (est t) \<le> fst (est t')) \<longrightarrow>
              sorted_wrt (<) (map datetime (session_table ''AAPL'' 0 [0..<78]))"
    by blast
  then have "barlist = session_bars 0 [0..<78]"
    by (auto simp: one_page_dict)
  with imp session_bars_sorted est_date_mono
  have "sorted_wrt (<) (map datetime (session_table ''AAPL'' 0 [0..<78]))"
    by blast
  with full_session_download session_bars_sorted dist show ?thesis by blast
qed

text \<open>
  The claim as stated fails on 78 bars of one date of which the first two are swapped
  and the last repeats the timestamp of 09:30: the date passes the count of line 155, the
  table that is returned has 77 rows of that date, and its first row is later than its
  second.
\<close>

theorem unsorted_duplicate_session:
  "download_intraday scripted est ''AAPL'' ''5Min'' ''1970-01-01'' ''1970-01-02'' 10000 ''KEY'' ''SECRET''
     \<lparr>server = [page [(''AAPL'', session_bars 0 ([1, 0] @ [2..<77] @ [0]))] None], sent = []\<rparr> =
   Some (Inr [(''AAPL'', session_table ''AAPL'' 0 ([1, 0] @ [2..<77]))],
         \<lparr>server = [],
          sent = [page_request ''AAPL'' ''5Min'' ''1970-01-01'' ''1970-01-02'' 10000 ''KEY'' ''SECRET'' None]\<rparr>)
   \<and> \<not> sorted_wrt (<) (map datetime (session_table ''AAPL'' 0 ([1, 0] @ [2..<77])))
   \<and> length (day_rows est 0 (session_table ''AAPL'' 0 ([1, 0] @ [2..<77]))) = 77"
proof -
  let ?Y = "[1, 0] @ [2..<77] :: nat list"
  have a: "\<forall>b\<in>set (session_bars 0 (?Y @ [0])).
             in_session est (row_of_bar b) \<and> local_date est (row_of_bar b) = 0"
    by (rule session_bars_in_session) auto
  have len: "78 \<le> length (session_bars 0 (?Y @ [0]))"
    by (simp add: session_bars_def)
  have split: "map row_of_bar (session_bars 0 (?Y @ [0])) =
               map row_of_bar (session_bars 0 ?Y) @ [row_of_bar (bar_at (bar_time 0 0))]"
    by (simp add: session_bars_def)
  have dup: "datetime (row_of_bar (bar_at (bar_time 0 0))) \<in>
               datetime ` set (map row_of_bar (session_bars 0 ?Y)) \<union> set []"
    by (simp add: session_bars_def)
  have id: "keep_first [] (map row_of_bar (session_bars 0 ?Y)) = map row_of_bar (session_bars 0 ?Y)"
  proof (rule keep_first_id)
    show "distinct (map datetime (map row_of_bar (session_bars 0 ?Y)))"
      by (rule session_bars_distinct) simp
  qed simp
  have k: "keep_first [] (map row_of_bar (session_bars 0 (?Y @ [0]))) =
           map row_of_bar (session_bars 0 ?Y)"
    unfolding split keep_first_append_new[OF dup] by (rule id)
  have "clean_symbol est ''AAPL'' (session_bars 0 (?Y @ [0])) = Inr (session_table ''AAPL'' 0 ?Y)"
    using clean_symbol_one_day(1)[OF a len, of "''AAPL''"] unfolding k session_table_eq .
  then have run: "download_intraday scripted est ''AAPL'' ''5Min'' ''1970-01-01'' ''1970-01-02'' 10000 ''KEY'' ''SECRET''
     \<lparr>server = [page [(''AAPL'', session_bars 0 ([1, 0] @ [2..<77] @ [0]))] None], sent = []\<rparr> =
   Some (Inr [(''AAPL'', session_table ''AAPL'' 0 ?Y)],
         \<lparr>server = [],
          sent = [page_request ''AAPL'' ''5Min'' ''1970-01-01'' ''1970-01-02'' 10000 ''KEY'' ''SECRET'' None]\<rparr>)"
    by (simp add: one_page_download)
  have unsorted: "\<not> sorted_wrt (<) (map datetime (session_table ''AAPL'' 0 ?Y))"
    by (simp add: session_table_def bar_at_def bar_time_def)
  have "\<forall>r\<in>set (session_table ''AAPL'' 0 ?Y). local_date est r = 0"
    using session_bars_in_session[of ?Y 0] by (auto simp: session_table_eq)
  then have "day_rows est 0 (session_table ''AAPL'' 0 ?Y) = session_table ''AAPL'' 0 ?Y"
    by (rule day_rows_all)
  then have short: "length (day_rows est 0 (session_table ''AAPL'' 0 ?Y)) = 77"
    by (simp add: session_table_def)
  from run unsorted short show ?thesis by blast
qed

text \<open>
  C10 (amended). The claim ends: within a date the table is in ascending order of time
  only if the raw bars of that date arrived in ascending order. A bar that repeats an
  earlier timestamp, or lies outside the session, can stand anywhere among the raw bars
  without a trace in the table, so that part fails as stated. What holds, for every table
  that \<^verbatim>\<open>download_intraday\<close> returns for a symbol, with \<open>barlist\<close> the bars fetched for that
  symbol: the calendar dates of the rows ascend along the table, whatever the order of
  the bars; the rows of one date are the rows of that date in the session-filtered frame,
  each timestamp at its first occurrence, in the order of the bars (none when the date
  has fewer than 78 rows there), so their timestamps are a subsequence of the timestamps
  of the bars and no row is moved; and for a date that is kept and whose bars within the
  session repeat no timestamp, the rows of the table are in ascending order of time
  exactly when those bars were.
\<close>

theorem order_of_rows:
  assumes "download_intraday net eastern symbols timeframe start end limit api_key secret_key w =
             Some (Inr df_dict, w')"
    and "(symbol, table) \<in> set df_dict"
  shows "sorted (map (local_date eastern) table)
       \<and> (\<exists>symbol_bars barlist.
            download_intraday_dict net symbols timeframe start end limit api_key secret_key True w =
              Some (Inr symbol_bars, w')
            \<and> (symbol, barlist) \<in> set symbol_bars
            \<and> (\<forall>date. day_rows eastern date table =
                  (if 78 \<le> length (day_rows eastern date (session_frame eastern barlist))
                   then map (tag_symbol symbol)
                          (keep_first [] (day_rows eastern date (session_frame eastern barlist)))
                   else []))
            \<and> (\<forall>date. subseq (map datetime (day_rows eastern date table)) (map bar_t barlist))
            \<and> (\<forall>date.
                  78 \<le> length (day_rows eastern date (session_frame eastern barlist)) \<and>
                  distinct (map datetime (day_rows eastern date (session_frame eastern barlist))) \<longrightarrow>
                  (sorted_wrt (<) (map datetime (day_rows eastern date table)) \<longleftrightarrow>
                   sorted_wrt (<) (map datetime
                     (day_rows eastern date (session_frame eastern barlist))))))"
proof -
  from download_intraday_tables[OF assms] obtain symbol_bars barlist where
    d: "download_intraday_dict net symbols timeframe start end limit api_key secret_key True w =
          Some (Inr symbol_bars, w')"
    and m: "(symbol, barlist) \<in> set symbol_bars"
    and c: "clean_symbol eastern symbol barlist = Inr table"
    by blast
  let ?F = "session_frame eastern barlist"
  note dr = clean_symbol_day_rows[OF c]
  have same: "sorted_wrt (<) (map datetime (day_rows eastern date table)) \<longleftrightarrow>
              sorted_wrt (<) (map datetime (day_rows eastern date ?F))"
    if "78 \<le> length (day_rows eastern date ?F)"
      and "distinct (map datetime (day_rows eastern date ?F))" for date
  proof -
    have "keep_first [] (day_rows eastern date ?F) = day_rows eastern date ?F"
      using that(2) by (intro keep_first_id) simp_all
    then show ?thesis
      unfolding dr using that(1) by (simp add: comp_def)
  qed
  from clean_symbol_sorted_dates[OF c] d m dr clean_symbol_subseq[OF c] same
  show ?thesis by blast
qed

text \<open>
  A full session in ascending order: the hypotheses of every part hold, and the rows of
  the date are in ascending order in the frame and in the table.
\<close>

theorem order_of_rows_witness:
  "download_intraday scripted est ''AAPL'' ''5Min'' ''1970-01-01'' ''1970-01-02'' 10000 ''KEY'' ''SECRET''
     \<lparr>server = [page [(''AAPL'', session_bars 0 [0..<78])] None], sent = []\<rparr> =
   Some (Inr [(''AAPL'', session_table ''AAPL'' 0 [0..<78])],
         \<lparr>server = [],
          sent = [page_request ''AAPL'' ''5Min'' ''1970-01-01'' ''1970-01-02'' 10000 ''KEY'' ''SECRET'' None]\<rparr>)
   \<and> sorted (map (local_date est) (session_table ''AAPL'' 0 [0..<78]))
   \<and> subseq (map datetime (day_rows est 0 (session_table ''AAPL'' 0 [0..<78])))
        (map bar_t (session_bars 0 [0..<78]))
   \<and> 78 \<le> length (day_rows est 0 (session_frame est (session_bars 0 [0..<78])))
   \<and> distinct (map datetime (day_rows est 0 (session_frame est (session_bars 0 [0..<78]))))
   \<and> sorted_wrt (<) (map datetime (day_rows est 0 (session_frame est (session_bars 0 [0..<78]))))
   \<and> sorted_wrt (<) (map datetime (day_rows est 0 (session_table ''AAPL'' 0 [0..<78])))"
proof -
  let ?B = "session_bars 0 [0..<78]"
  let ?T = "session_table ''AAPL'' 0 [0..<78]"
  have "(''AAPL'', ?T) \<in> set [(''AAPL'', ?T)]"
    by simp
  from order_of_rows[OF full_session_download this]
  obtain symbol_bars barlist where
    s: "sorted (map (local_date est) ?T)"
    and "download_intraday_dict scripted ''AAPL'' ''5Min'' ''1970-01-01'' ''1970-01-02'' 10000 ''KEY'' ''SECRET'' True
       \<lparr>server = [page [(''AAPL'', ?B)] None], sent = []\<rparr> =
     Some (Inr symbol_bars,
       \<lparr>server = [],
        sent = [page_request ''AAPL'' ''5Min'' ''1970-01-01'' ''1970-01-02'' 10000 ''KEY'' ''SECRET'' None]\<rparr>)"
    and "(''AAPL'', barlist) \<in> set symbol_bars"
    and sub: "\<forall>date. subseq (map datetime (day_rows est date ?T)) (map bar_t barlist)"
    and iff: "\<forall>date.
                  78 \<le> length (day_rows est date (session_frame est barlist)) \<and>
                  distinct (map datetime (day_rows est date (session_frame est barlist))) \<longrightarrow>
                  (sorted_wrt (<) (map datetime (day_rows est date ?T)) \<longleftrightarrow>
                   sorted_wrt (<) (map datetime (day_rows est date (session_frame est barlist))))"
    by blast
  then have b: "barlist = ?B"
    by (auto simp: one_page_dict)
  have a: "\<forall>b\<in>set ?B. in_session est (row_of_bar b) \<and> local_date est (row_of_bar b) = 0"
    by (rule session_bars_in_session) simp
  have ne: "?B \<noteq> []"
    by (simp add: session_bars_def)
  have fr: "day_rows est 0 (session_frame est ?B) = map row_of_bar ?B"
    by (rule one_day_frame(3)[OF ne a])
  have len: "78 \<le> length (day_rows est 0 (session_frame est ?B))"
    unfolding fr by (simp add: session_bars_def)
  have dist: "distinct (map datetime (day_rows est 0 (session_frame est ?B)))"
    unfolding fr by (rule session_bars_distinct) simp
  have "sorted (map datetime (day_rows est 0 (session_frame est ?B)))"
    unfolding fr map_datetime_row_of_bar by (rule session_bars_sorted)
  with dist have raw: "sorted_wrt (<) (map datetime (day_rows est 0 (session_frame est ?B)))"
    by (simp add: strict_sorted_iff)
  from iff b len dist raw have out: "sorted_wrt (<) (map datetime (day_rows est 0 ?T))"
    by blast
  from sub b have "subseq (map datetime (day_rows est 0 ?T)) (map bar_t ?B)"
    by blast
  with full_session_download s len dist raw out show ?thesis by blast
qed

text \<open>
  The last clause of the claim as stated fails on 79 bars of one date, the 78 bars of a
  session in ascending order followed by a bar that repeats the timestamp of 09:30: the
  rows of the table are in ascending order of time, and the raw bars of the date are not.
\<close>

theorem ascending_table_from_unsorted_bars:
  "download_intraday scripted est ''AAPL'' ''5Min'' ''1970-01-01'' ''1970-01-02'' 10000 ''KEY'' ''SECRET''
     \<lparr>server = [page [(''AAPL'', session_bars 0 ([0..<78] @ [0]))] None], sent = []\<rparr> =
   Some (Inr [(''AAPL'', session_table ''AAPL'' 0 [0..<78])],
         \<lparr>server = [],
          sent = [page_request ''AAPL'' ''5Min'' ''1970-01-01'' ''1970-01-02'' 10000 ''KEY'' ''SECRET'' None]\<rparr>)
   \<and> day_rows est 0 (map row_of_bar (session_bars 0 ([0..<78] @ [0]))) =
       map row_of_bar (session_bars 0 ([0..<78] @ [0]))
   \<and> sorted_wrt (<) (map datetime (day_rows est 0 (session_table ''AAPL'' 0 [0..<78])))
   \<and> \<not> sorted (map bar_t (session_bars 0 ([0..<78] @ [0])))"
proof -
  let ?Y = "[0..<78] :: nat list"
  have a: "\<forall>b\<in>set (session_bars 0 (?Y @ [0])).
             in_session est (row_of_bar b) \<and> local_date est (row_of_bar b) = 0"
    by (rule session_bars_in_session) auto
  have len: "78 \<le> length (session_bars 0 (?Y @ [0]))"
    by (simp add: session_bars_def)
  have split: "map row_of_bar (session_bars 0 (?Y @ [0])) =
               map row_of_bar (session_bars 0 ?Y) @ [row_of_bar (bar_at (bar_time 0 0))]"
    by (simp add: session_bars_def)
  have "bar_at (bar_time 0 0) \<in> set (session_bars 0 ?Y)"
    unfolding session_bars_def set_map by (rule image_eqI[where x=0]) simp_all
  then have "row_of_bar (bar_at (bar_time 0 0)) \<in> row_of_bar ` set (session_bars 0 ?Y)"
    by (rule imageI)
  then have "datetime (row_of_bar (bar_at (bar_time 0 0))) \<in>
               datetime ` row_of_bar ` set (session_bars 0 ?Y)"
    by (rule imageI)
  then have dup: "datetime (row_of_bar (bar_at (bar_time 0 0))) \<in>
               datetime ` set (map row_of_bar (session_bars 0 ?Y)) \<union> set []"
    unfolding set_map by (rule UnI1)
  have id: "keep_first [] (map row_of_bar (session_bars 0 ?Y)) = map row_of_bar (session_bars 0 ?Y)"
  proof (rule keep_first_id)
    show "distinct (map datetime (map row_of_bar (session_bars 0 ?Y)))"
      by (rule session_bars_distinct) simp
  qed simp
  have k: "keep_first [] (map row_of_bar (session_bars 0 (?Y @ [0]))) =
           map row_of_bar (session_bars 0 ?Y)"
    unfolding split keep_first_append_new[OF dup] by (rule id)
  have "clean_symbol est ''AAPL'' (session_bars 0 (?Y @ [0])) = Inr (session_table ''AAPL'' 0 ?Y)"
    using clean_symbol_one_day(1)[OF a len, of "''AAPL''"] unfolding k session_table_eq .
  then have run: "download_intraday scripted est ''AAPL'' ''5Min'' ''1970-01-01'' ''1970-01-02'' 10000 ''KEY'' ''SECRET''
     \<lparr>server = [page [(''AAPL'', session_bars 0 ([0..<78] @ [0]))] None], sent = []\<rparr> =
   Some (Inr [(''AAPL'', session_table ''AAPL'' 0 ?Y)],
         \<lparr>server = [],
          sent = [page_request ''AAPL'' ''5Min'' ''1970-01-01'' ''1970-01-02'' 10000 ''KEY'' ''SECRET'' None]\<rparr>)"
    by (simp add: one_page_download)
  have "\<forall>r\<in>set (map row_of_bar (session_bars 0 (?Y @ [0]))). local_date est r = 0"
    using a by simp
  then have raw_day: "day_rows est 0 (map row_of_bar (session_bars 0 (?Y @ [0]))) =
                      map row_of_bar (session_bars 0 (?Y @ [0]))"
    by (rule day_rows_all)
  have "\<forall>r\<in>set (session_table ''AAPL'' 0 ?Y). local_date est r = 0"
    using session_bars_in_session[of ?Y 0] by (auto simp: session_table_eq)
  then have day: "day_rows est 0 (session_table ''AAPL'' 0 ?Y) = session_table ''AAPL'' 0 ?Y"
    by (rule day_rows_all)
  have "distinct (map bar_t (session_bars 0 ?Y))"
    using session_bars_distinct[of ?Y 0] unfolding map_datetime_row_of_bar by simp
  with session_bars_sorted[of 0 78]
  have asc: "sorted_wrt (<) (map datetime (day_rows est 0 (session_table ''AAPL'' 0 ?Y)))"
    unfolding day session_table_times by (simp add: strict_sorted_iff)
  have unsorted: "\<not> sorted (map bar_t (session_bars 0 (?Y @ [0])))"
  proof
    assume "sorted (map bar_t (session_bars 0 (?Y @ [0])))"
    then have "\<forall>x\<in>set (map bar_t (session_bars 0 ?Y)). x \<le> bar_t (bar_at (bar_time 0 0))"
      by (simp add: session_bars_def sorted_append)
    moreover have "bar_t (bar_at (bar_time 0 1)) \<in> set (map bar_t (session_bars 0 ?Y))"
      by (simp add: session_bars_def)
    ultimately have "bar_t (bar_at (bar_time 0 1)) \<le> bar_t (bar_at (bar_time 0 0))"
      by blast
    then show False
      by (simp add: bar_at_def bar_time_def)
  qed
  from run raw_day asc unsorted show ?thesis by blast
qed

section \<open>The driver's claims\<close>

text \<open>
  C8 (the code departs from the claim). The usage line of the script names its
  arguments \<^verbatim>\<open><SYMBOLS> <FREQ> <START_DATE> <END_DATE> <LIMIT> <API_KEY> <SECRET_KEY> (<STACK>)\<close>, so
  the aggregation flag is \<^verbatim>\<open>sys.argv[8]\<close>; line 38 compares \<^verbatim>\<open>sys.argv[6]\<close>, the API key, with
  \<^verbatim>\<open>'stack'\<close>. A run with the ninth argument \<^verbatim>\<open>stack\<close> and the key \<^verbatim>\<open>KEY\<close> ends with the tables
  of the symbols and no combined table; a run with the key \<^verbatim>\<open>stack\<close> and the ninth argument
  \<^verbatim>\<open>no\<close> ends with the combined table, the concatenation of the tables in the order of the
  symbols. In both runs the Python library functions parse \<^verbatim>\<open>10000\<close> and the two dates.
\<close>

theorem stack_flag_ignored:
  "main scripted est (Map.empty(''10000'' \<mapsto> 10000)) (Map.empty(''1970-01-01'' \<mapsto> 0, ''1970-01-02'' \<mapsto> 1))
     [''download_data.py'', ''AAPL'', ''5Min'', ''1970-01-01'', ''1970-01-02'', ''10000'',
      ''KEY'', ''SECRET'', ''stack'']
     \<lparr>server = [page [(''AAPL'', session_bars 0 [0..<78])] None], sent = []\<rparr> =
   Some (Finished [(''AAPL'', session_table ''AAPL'' 0 [0..<78])] None,
         \<lparr>server = [],
          sent = [page_request ''AAPL'' ''5Min'' ''1970-01-01'' ''1970-01-02'' 10000 ''KEY'' ''SECRET'' None]\<rparr>)
   \<and>
   main scripted est (Map.empty(''10000'' \<mapsto> 10000)) (Map.empty(''1970-01-01'' \<mapsto> 0, ''1970-01-02'' \<mapsto> 1))
     [''download_data.py'', ''AAPL'', ''5Min'', ''1970-01-01'', ''1970-01-02'', ''10000'',
      ''stack'', ''SECRET'', ''no'']
     \<lparr>server = [page [(''AAPL'', session_bars 0 [0..<78])] None], sent = []\<rparr> =
   Some (Finished [(''AAPL'', session_table ''AAPL'' 0 [0..<78])]
           (Some (session_table ''AAPL'' 0 [0..<78])),
         \<lparr>server = [],
          sent = [page_request ''AAPL'' ''5Min'' ''1970-01-01'' ''1970-01-02'' 10000 ''stack'' ''SECRET'' None]\<rparr>)"
proof (rule conjI)
  let ?argv = "[''download_data.py'', ''AAPL'', ''5Min'', ''1970-01-01'', ''1970-01-02'', ''10000'',
      ''KEY'', ''SECRET'', ''stack'']"
  have d: "download_intraday scripted est (?argv ! 1) (?argv ! 2) (?argv ! 3) (?argv ! 4) 10000
             (?argv ! 6) (?argv ! 7)
             \<lparr>server = [page [(''AAPL'', session_bars 0 [0..<78])] None], sent = []\<rparr> =
           Some (Inr [(''AAPL'', session_table ''AAPL'' 0 [0..<78])],
             \<lparr>server = [],
              sent = [page_request ''AAPL'' ''5Min'' ''1970-01-01'' ''1970-01-02'' 10000 ''KEY'' ''SECRET'' None]\<rparr>)"
    by (simp add: full_session_download_any)
  have "\<not> stack_requested ?argv"
    by (simp add: stack_requested_def)
  with main_downloads[where argv="?argv" and py_int="Map.empty(''10000'' \<mapsto> 10000)"
      and to_date="Map.empty(''1970-01-01'' \<mapsto> 0, ''1970-01-02'' \<mapsto> 1)", OF _ _ _ _ d]
  show "main scripted est (Map.empty(''10000'' \<mapsto> 10000)) (Map.empty(''1970-01-01'' \<mapsto> 0, ''1970-01-02'' \<mapsto> 1))
     ?argv \<lparr>server = [page [(''AAPL'', session_bars 0 [0..<78])] None], sent = []\<rparr> =
   Some (Finished [(''AAPL'', session_table ''AAPL'' 0 [0..<78])] None,
         \<lparr>server = [],
          sent = [page_request ''AAPL'' ''5Min'' ''1970-01-01'' ''1970-01-02'' 10000 ''KEY'' ''SECRET'' None]\<rparr>)"
    by (simp add: check_args_def)
next
  let ?argv = "[''download_data.py'', ''AAPL'', ''5Min'', ''1970-01-01'', ''1970-01-02'', ''10000'',
      ''stack'', ''SECRET'', ''no'']"
  have d: "download_intraday scripted est (?argv ! 1) (?argv ! 2) (?argv ! 3) (?argv ! 4) 10000
             (?argv ! 6) (?argv ! 7)
             \<lparr>server = [page [(''AAPL'', session_bars 0 [0..<78])] None], sent = []\<rparr> =
           Some (Inr [(''AAPL'', session_table ''AAPL'' 0 [0..<78])],
             \<lparr>server = [],
              sent = [page_request ''AAPL'' ''5Min'' ''1970-01-01'' ''1970-01-02'' 10000 ''stack'' ''SECRET'' None]\<rparr>)"
    by (simp add: full_session_download_any)
  have "stack_requested ?argv"
    by (simp add: stack_requested_def)
  with main_downloads[where argv="?argv" and py_int="Map.empty(''10000'' \<mapsto> 10000)"
      and to_date="Map.empty(''1970-01-01'' \<mapsto> 0, ''1970-01-02'' \<mapsto> 1)", OF _ _ _ _ d]
  show "main scripted est (Map.empty(''10000'' \<mapsto> 10000)) (Map.empty(''1970-01-01'' \<mapsto> 0, ''1970-01-02'' \<mapsto> 1))
     ?argv \<lparr>server = [page [(''AAPL'', session_bars 0 [0..<78])] None], sent = []\<rparr> =
   Some (Finished [(''AAPL'', session_table ''AAPL'' 0 [0..<78])]
           (Some (session_table ''AAPL'' 0 [0..<78])),
         \<lparr>server = [],
          sent = [page_request ''AAPL'' ''5Min'' ''1970-01-01'' ''1970-01-02'' 10000 ''stack'' ''SECRET'' None]\<rparr>)"
    by (simp add: check_args_def stack_data_def pd_concat_def)
qed

text \<open>
  C9 (the code departs from the claim). The claim: a run whose first argument is \<^verbatim>\<open>-h\<close> or
  \<^verbatim>\<open>--help\<close> prints the usage line and exits with status zero. Lines 13 to 15 do that, but
  the count test of line 9 comes first: \<^verbatim>\<open>download_data.py -h\<close> has two entries in
  \<^verbatim>\<open>sys.argv\<close>, so the script prints the usage line and exits with status 1. The lines of
  the help flag are reached only when seven or eight arguments are given.
\<close>

theorem help_alone_exits_one:
  "check_args [''download_data.py'', ''-h''] = Some (Exited 1 [usage])
   \<and> main scripted est Map.empty Map.empty [''download_data.py'', ''-h'']
       \<lparr>server = [], sent = []\<rparr> = Some (Exited 1 [usage], \<lparr>server = [], sent = []\<rparr>)"
  by (simp add: main_def check_args_def)

text \<open>
  The two tests of lines 9 to 15 in full: with fewer than 8 or more than 9 entries in
  \<^verbatim>\<open>sys.argv\<close> the script prints the usage line and exits with status 1; with 8 or 9
  entries of which the first argument is a help flag it prints the usage line and exits
  with status 0. Nothing is requested from the network in either case.
\<close>

theorem usage_exits:
  "(length argv < 8 \<or> length argv > 9 \<longrightarrow>
      main net eastern py_int to_date argv w = Some (Exited 1 [usage], w))
   \<and> (8 \<le> length argv \<and> length argv \<le> 9 \<and> (argv ! 1 = ''-h'' \<or> argv ! 1 = ''--help'') \<longrightarrow>
      main net eastern py_int to_date argv w = Some (Exited 0 [usage], w))"
  by (auto simp: main_def check_args_def)

theorem usage_exits_witness:
  "main scripted est Map.empty Map.empty [''download_data.py'', ''AAPL'']
     \<lparr>server = [], sent = []\<rparr> = Some (Exited 1 [usage], \<lparr>server = [], sent = []\<rparr>)
   \<and> main scripted est Map.empty Map.empty
       [''download_data.py'', ''--help'', ''5Min'', ''1970-01-01'', ''1970-01-02'', ''10000'',
        ''KEY'', ''SECRET'']
     \<lparr>server = [], sent = []\<rparr> = Some (Exited 0 [usage], \<lparr>server = [], sent = []\<rparr>)"
  using usage_exits[of "[''download_data.py'', ''AAPL'']" scripted est Map.empty Map.empty
      "\<lparr>server = [], sent = []\<rparr>"]
    usage_exits[of "[''download_data.py'', ''--help'', ''5Min'', ''1970-01-01'', ''1970-01-02'',
        ''10000'', ''KEY'', ''SECRET'']" scripted est Map.empty Map.empty
      "\<lparr>server = [], sent = []\<rparr>"]
  by simp

end
